theory Spec2Isabelle
  imports Complex_Main
begin

section \<open>Top-holders tracker bot: ingestion, alert formatting, webhook reconciliation\<close>

text \<open>
  A shallow embedding of \<open>index.js\<close> (the serverless variant) and \<open>main.js\<close> (the
  stand-alone server). The two files are copies of each other except for the chain
  table of \<open>getChainId\<close> and its default.

  Conventions of the embedding.
  \<^item> A JavaScript number is a \<open>real\<close>: comparisons are those of the exact values;
    rounding of the double arithmetic is not modelled.
  \<^item> A field that the payload may omit is an \<open>option\<close>; \<open>None\<close> is
    \<open>undefined\<close>.
  \<^item> \<open>fetch\<close> either rejects (the awaiting function throws) or resolves to a
    response with its \<open>ok\<close> flag and a body; see \<open>http\<close>.
  \<^item> A thrown exception is the left injection of a sum.
  \<^item> The store (subscribers, local webhook mirror) answers every statement.
\<close>

subsection \<open>Errors and outbound calls\<close>

datatype js_error = NetworkError

datatype 'b http = Rejected | Response bool 'b

subsection \<open>Balance-change events\<close>

record asset =
  symbol :: "string option"
  decimals :: "nat option"

record balance_change =
  transaction_hash :: string
  value_delta_usd :: "real option"
  asset :: "asset option"
  direction :: string
  amount_delta :: real
  subscribed_address :: string

text \<open>
  \<open>amount_delta\<close> holds the number that \<open>parseFloat(change.amount_delta)\<close> yields.
\<close>

subsection \<open>Alert formatter\<close>

text \<open>
  The alert is kept as the values that the message template interpolates, in the
  template's order; \<open>Intl.NumberFormat\<close> and the glyphs themselves are not modelled.
  \<open>emoji_count\<close> is the number of repetitions of the siren glyph, \<open>incoming\<close> selects
  the direction glyph.
\<close>

record alert =
  emoji_count :: nat
  incoming :: bool
  amount :: real
  alert_symbol :: string
  usd :: real
  direction_text :: string
  holder_short :: string
  tx_link :: string

definition explorers :: "(int \<times> string) list" where
  "explorers =
    [(1, ''https://etherscan.io/tx/''),
     (10, ''https://optimistic.etherscan.io/tx/''),
     (56, ''https://bscscan.com/tx/''),
     (137, ''https://polygonscan.com/tx/''),
     (8453, ''https://basescan.org/tx/''),
     (42161, ''https://arbiscan.io/tx/''),
     (43114, ''https://snowtrace.io/tx/'')]"

definition getExplorerLink :: "string \<Rightarrow> int \<Rightarrow> string" where
  "getExplorerLink txHash chainId =
     (case map_of explorers chainId of
        Some prefix \<Rightarrow> prefix
      | None \<Rightarrow> ''https://etherscan.io/tx/'') @ txHash"

text \<open>\<open>change.value_delta_usd || 0\<close>: undefined and 0 both give 0.\<close>

definition usdValue_of :: "balance_change \<Rightarrow> real" where
  "usdValue_of change =
     (case value_delta_usd change of
        None \<Rightarrow> 0
      | Some v \<Rightarrow> if v = 0 then 0 else v)"

text \<open>\<open>change.asset?.symbol || "???"\<close>: the empty string is falsy.\<close>

definition symbol_of :: "balance_change \<Rightarrow> string" where
  "symbol_of change =
     (case asset change of
        None \<Rightarrow> ''???''
      | Some a \<Rightarrow>
          (case symbol a of
             None \<Rightarrow> ''???''
           | Some s \<Rightarrow> if s = [] then ''???'' else s))"

text \<open>\<open>change.asset?.decimals || 18\<close>: the number 0 is falsy.\<close>

definition decimals_of :: "balance_change \<Rightarrow> nat" where
  "decimals_of change =
     (case asset change of
        None \<Rightarrow> 18
      | Some a \<Rightarrow>
          (case decimals a of
             None \<Rightarrow> 18
           | Some d \<Rightarrow> if d = 0 then 18 else d))"

definition emojiCount_of :: "real \<Rightarrow> nat" where
  "emojiCount_of usdValue =
     (if usdValue \<ge> 10000000 then 5
      else if usdValue \<ge> 1000000 then 4
      else if usdValue \<ge> 500000 then 3
      else if usdValue \<ge> 100000 then 2
      else 1)"

text \<open>
  \<open>holder.slice(0, 6)\<close> and \<open>holder.slice(-4)\<close>; the latter is the whole string when
  it has fewer than four characters.
\<close>

definition holderShort_of :: "string \<Rightarrow> string" where
  "holderShort_of holder =
     take 6 holder @ ''...'' @ drop (length holder - 4) holder"

definition formatBalanceMessage :: "balance_change \<Rightarrow> int \<Rightarrow> alert" where
  "formatBalanceMessage change chainId =
     (let usdValue = usdValue_of change;
          sym = symbol_of change;
          decs = decimals_of change;
          dir = direction change;
          rawAmount = amount_delta change;
          amt = rawAmount / 10 ^ decs;
          emojiCount = emojiCount_of usdValue;
          holder = subscribed_address change;
          holderShort = holderShort_of holder;
          txLink = getExplorerLink (transaction_hash change) chainId
      in \<lparr> emoji_count = emojiCount,
           incoming = (dir = ''in''),
           amount = amt,
           alert_symbol = sym,
           usd = usdValue,
           direction_text = (if dir = ''in'' then ''received'' else ''sent''),
           holder_short = holderShort,
           tx_link = txLink \<rparr>)"

subsection \<open>Subscriber broadcast\<close>

text \<open>
  The messaging endpoint is an oracle: the answer to the \<open>n\<close>-th
  \<open>sendTelegramMessage\<close> call of a request, for its chat id and text. The list
  \<open>sent\<close> records the calls issued so far, in order.
\<close>

type_synonym telegram = "nat \<Rightarrow> string \<Rightarrow> alert \<Rightarrow> unit http"

definition sendTelegramMessage ::
  "telegram \<Rightarrow> alert \<Rightarrow> string \<Rightarrow> (string \<times> alert) list
    \<Rightarrow> js_error + (bool \<times> (string \<times> alert) list)" where
  "sendTelegramMessage tg text chatId sent =
     (case tg (length sent) chatId text of
        Rejected \<Rightarrow> Inl NetworkError
      | Response ok _ \<Rightarrow> Inr (ok, sent @ [(chatId, text)]))"

text \<open>
  \<open>broadcastToSubscribers\<close>: the subscriber table is read, then one message is sent
  to each chat id in turn; the value \<open>response.ok\<close> is discarded.
\<close>

fun broadcast_loop ::
  "telegram \<Rightarrow> alert \<Rightarrow> string list \<Rightarrow> (string \<times> alert) list
    \<Rightarrow> js_error + (string \<times> alert) list" where
  "broadcast_loop tg text [] sent = Inr sent"
| "broadcast_loop tg text (chatId # rest) sent =
     (case sendTelegramMessage tg text chatId sent of
        Inl e \<Rightarrow> Inl e
      | Inr (ok, sent') \<Rightarrow> broadcast_loop tg text rest sent')"

definition broadcastToSubscribers ::
  "telegram \<Rightarrow> string list \<Rightarrow> alert \<Rightarrow> (string \<times> alert) list
    \<Rightarrow> js_error + (string \<times> alert) list" where
  "broadcastToSubscribers tg subscribers text sent =
     broadcast_loop tg text subscribers sent"

subsection \<open>Balance-change ingestion: \<open>POST /balances\<close>\<close>

record ingest_state =
  processedTxs :: "string set"
  broadcasts :: "alert list"
  sent :: "(string \<times> alert) list"

definition ingest_init :: ingest_state where
  "ingest_init = \<lparr> processedTxs = {}, broadcasts = [], sent = [] \<rparr>"

text \<open>\<open>change.value_delta_usd < 100\<close>: the comparison with undefined is false.\<close>

definition small_transaction :: "balance_change \<Rightarrow> bool" where
  "small_transaction change =
     (case value_delta_usd change of
        None \<Rightarrow> False
      | Some v \<Rightarrow> v < 100)"

text \<open>
  The \<open>for\<close> loop of the handler. \<open>broadcasts\<close> collects the messages handed to
  \<open>broadcastToSubscribers\<close>. The handler has no \<open>try\<close>: a rejected send leaves the
  loop and the handler without a response.
\<close>

fun balances_loop ::
  "telegram \<Rightarrow> string list \<Rightarrow> int \<Rightarrow> balance_change list \<Rightarrow> ingest_state
    \<Rightarrow> js_error + ingest_state" where
  "balances_loop tg subscribers chainId [] st = Inr st"
| "balances_loop tg subscribers chainId (change # rest) st =
     (if transaction_hash change \<in> processedTxs st
      then balances_loop tg subscribers chainId rest st
      else
        let st1 = st\<lparr>processedTxs := insert (transaction_hash change) (processedTxs st)\<rparr>
        in if small_transaction change
           then balances_loop tg subscribers chainId rest st1
           else
             let message = formatBalanceMessage change chainId
             in case broadcastToSubscribers tg subscribers message (sent st1) of
                  Inl e \<Rightarrow> Inl e
                | Inr sent' \<Rightarrow>
                    balances_loop tg subscribers chainId rest
                      (st1\<lparr>broadcasts := broadcasts st1 @ [message], sent := sent'\<rparr>))"

text \<open>The response \<open>{ok: true, processed: processedTxs.size}\<close>.\<close>

definition balances ::
  "telegram \<Rightarrow> string list \<Rightarrow> int \<Rightarrow> balance_change list \<Rightarrow> js_error + nat" where
  "balances tg subscribers chainId balanceChanges =
     (case balances_loop tg subscribers chainId balanceChanges ingest_init of
        Inl e \<Rightarrow> Inl e
      | Inr st \<Rightarrow> Inr (card (processedTxs st)))"

text \<open>The events that the deduplication step lets through, given the hashes seen.\<close>

fun fresh :: "string set \<Rightarrow> balance_change list \<Rightarrow> balance_change list" where
  "fresh seen [] = []"
| "fresh seen (change # rest) =
     (if transaction_hash change \<in> seen then fresh seen rest
      else change # fresh (insert (transaction_hash change) seen) rest)"

definition fan_out :: "string list \<Rightarrow> alert list \<Rightarrow> (string \<times> alert) list" where
  "fan_out subscribers msgs = concat (map (\<lambda>m. map (\<lambda>c. (c, m)) subscribers) msgs)"

subsection \<open>Chain registry: \<open>getChainId\<close>\<close>

text \<open>
  \<open>blockchain.toLowerCase()\<close> on the ASCII letters; chain names are ASCII.
\<close>

definition lower_char :: "char \<Rightarrow> char" where
  "lower_char c =
     (case map_of (zip ''ABCDEFGHIJKLMNOPQRSTUVWXYZ'' ''abcdefghijklmnopqrstuvwxyz'') c of
        Some l \<Rightarrow> l
      | None \<Rightarrow> c)"

definition toLowerCase :: "string \<Rightarrow> string" where
  "toLowerCase s = map lower_char s"

text \<open>
  What \<open>getChainId\<close> returns: a number, \<open>null\<close>, or a member that the object
  literal inherits from its prototype. After \<open>toLowerCase\<close> only the inherited names
  \<open>constructor\<close> and \<open>__proto__\<close> can be reached; they are objects, hence truthy,
  and \<open>||\<close> returns them unchanged.
\<close>

datatype chain_result = ChainId nat | Null | Inherited string

definition inherited_names :: "string list" where
  "inherited_names = [''constructor'', ''__proto__'']"

text \<open>The table of \<open>index.js\<close>.\<close>

definition chain_map :: "(string \<times> nat) list" where
  "chain_map =
    [(''abstract'', 2741), (''ancient8'', 888888888), (''ape_chain'', 33139),
     (''arbitrum'', 42161), (''arbitrum_nova'', 42170), (''avalanche_c'', 43114),
     (''avalanche_fuji'', 43113), (''b3'', 8333), (''base'', 8453),
     (''base_sepolia'', 84532), (''berachain'', 80094), (''blast'', 81457),
     (''bnb'', 56), (''bob'', 60808), (''boba'', 288), (''celo'', 42220),
     (''corn'', 21000000), (''cyber'', 7560), (''degen'', 666666666),
     (''ethereum'', 1), (''fantom'', 250), (''flare'', 14), (''fraxtal'', 252),
     (''gnosis'', 100), (''hyper_evm'', 999), (''ink'', 57073), (''kaia'', 8217),
     (''katana'', 747474), (''linea'', 59144), (''lisk'', 1135), (''mantle'', 5000),
     (''metis'', 1088), (''mode'', 34443), (''monad'', 143),
     (''monad_testnet'', 10143), (''omni'', 166), (''opbnb'', 204), (''optimism'', 10),
     (''peaq'', 3338), (''plasma'', 9745), (''polygon'', 137),
     (''polygon_amoy'', 80002), (''rari'', 1380012617), (''redstone'', 690),
     (''ronin'', 2020), (''rootstock'', 30), (''scroll'', 534352), (''sei'', 1329),
     (''sepolia'', 11155111), (''shape'', 360), (''soneium'', 1868), (''sonic'', 146),
     (''superposition'', 55244), (''superseed'', 5330), (''swellchain'', 1923),
     (''unichain'', 130), (''wemix'', 1111), (''world'', 480), (''xai'', 660279),
     (''zero_network'', 543210), (''zkevm'', 1101), (''zksync'', 324),
     (''zora'', 7777777)]"

text \<open>\<open>map[blockchain.toLowerCase()] || null\<close> (\<open>index.js\<close>).\<close>

definition getChainId :: "string \<Rightarrow> chain_result" where
  "getChainId blockchain =
     (let key = toLowerCase blockchain
      in case map_of chain_map key of
           Some n \<Rightarrow> if n = 0 then Null else ChainId n
         | None \<Rightarrow> if key \<in> set inherited_names then Inherited key else Null)"

text \<open>The table of \<open>main.js\<close>.\<close>

definition chain_map_main :: "(string \<times> nat) list" where
  "chain_map_main =
    [(''ethereum'', 1), (''optimism'', 10), (''bnb'', 56), (''polygon'', 137),
     (''base'', 8453), (''arbitrum'', 42161), (''avalanche_c'', 43114)]"

text \<open>\<open>map[blockchain.toLowerCase()] || 1\<close> (\<open>main.js\<close>).\<close>

definition getChainId_main :: "string \<Rightarrow> chain_result" where
  "getChainId_main blockchain =
     (let key = toLowerCase blockchain
      in case map_of chain_map_main key of
           Some n \<Rightarrow> if n = 0 then ChainId 1 else ChainId n
         | None \<Rightarrow> if key \<in> set inherited_names then Inherited key else ChainId 1)"

text \<open>
  The caller in both files, \<open>fetchAllTopHolders\<close>, skips a token when
  \<open>!chainId\<close>, under the comment "Skip if we don't support this chain".
\<close>

definition skips_token :: "chain_result \<Rightarrow> bool" where
  "skips_token r = (case r of Null \<Rightarrow> True | ChainId n \<Rightarrow> n = 0 | Inherited k \<Rightarrow> False)"

subsection \<open>Webhook enumeration: \<open>listAllWebhooks\<close>\<close>

record webhook =
  wh_id :: string
  active :: bool
  name :: "string option"

text \<open>
  The remote registry is an oracle: the answer to the \<open>n\<close>-th page request of a
  call, for its \<open>limit\<close> and \<open>offset\<close>. The body is \<open>data.webhooks\<close>, \<open>None\<close>
  when the member is missing. A body that fails to parse rejects like the request.
\<close>

type_synonym registry = "nat \<Rightarrow> nat \<Rightarrow> nat \<Rightarrow> webhook list option http"

definition limit :: nat where
  "limit = 300"

definition maxIterations :: nat where
  "maxIterations = 50"

record listing_state =
  allWebhooks :: "webhook list"
  seenIds :: "string set"
  offset :: nat
  iterations :: nat

text \<open>The inner \<open>for\<close> loop over one page; the last component is \<open>newCount\<close>.\<close>

fun page_loop ::
  "webhook list \<Rightarrow> webhook list \<Rightarrow> string set \<Rightarrow> nat
    \<Rightarrow> webhook list \<times> string set \<times> nat" where
  "page_loop [] allW seen newCount = (allW, seen, newCount)"
| "page_loop (wh # rest) allW seen newCount =
     (if wh_id wh \<notin> seen
      then page_loop rest (allW @ [wh]) (insert (wh_id wh) seen) (newCount + 1)
      else page_loop rest allW seen newCount)"

text \<open>
  The \<open>while\<close> loop. The result pairs the number of page requests issued with what
  the function returns or throws.
\<close>

function listAllWebhooks_loop ::
  "registry \<Rightarrow> listing_state \<Rightarrow> nat \<times> (js_error + webhook list)" where
  "listAllWebhooks_loop reg st =
     (if iterations st < maxIterations
      then
        (let iters = iterations st + 1
         in case reg (iterations st) limit (offset st) of
              Rejected \<Rightarrow> (iters, Inl NetworkError)
            | Response ok body \<Rightarrow>
                if \<not> ok then (iters, Inr (allWebhooks st))
                else
                  let webhooks = (case body of None \<Rightarrow> [] | Some ws \<Rightarrow> ws)
                  in if length webhooks = 0 then (iters, Inr (allWebhooks st))
                     else
                       let r = page_loop webhooks (allWebhooks st) (seenIds st) 0;
                           allW = fst r;
                           seen = fst (snd r);
                           newCount = snd (snd r)
                       in if newCount = 0 then (iters, Inr allW)
                          else if length webhooks < limit then (iters, Inr allW)
                          else listAllWebhooks_loop reg
                                 \<lparr> allWebhooks = allW, seenIds = seen,
                                   offset = offset st + limit, iterations = iters \<rparr>)
      else (iterations st, Inr (allWebhooks st)))"
  by pat_completeness auto
termination
  by (relation "measure (\<lambda>(reg, st). maxIterations - iterations st)") auto

declare listAllWebhooks_loop.simps [simp del]

definition listAllWebhooks :: "registry \<Rightarrow> nat \<times> (js_error + webhook list)" where
  "listAllWebhooks reg =
     listAllWebhooks_loop reg
       \<lparr> allWebhooks = [], seenIds = {}, offset = 0, iterations = 0 \<rparr>"

text \<open>
  "Deduplicated by id", in the words of the specification: of the webhooks that share
  an id the first one is kept, in the order of the page.
\<close>

fun dedupe_by_id :: "webhook list \<Rightarrow> webhook list" where
  "dedupe_by_id [] = []"
| "dedupe_by_id (w # ws) = w # dedupe_by_id (filter (\<lambda>v. wh_id v \<noteq> wh_id w) ws)"

text \<open>
  The webhooks of a page that the inner loop appends, given the ids seen before it.
\<close>

fun unseen :: "string set \<Rightarrow> webhook list \<Rightarrow> webhook list" where
  "unseen seen [] = []"
| "unseen seen (w # ws) =
     (if wh_id w \<in> seen then unseen seen ws else w # unseen (insert (wh_id w) seen) ws)"

subsection \<open>Pause and resume\<close>

text \<open>
  The local mirror is the table \<open>webhooks\<close>, keyed by its primary key \<open>id\<close>.
  \<open>UPDATE webhooks SET active = v WHERE id = i\<close> changes the row when there is one.
\<close>

record mirror_row =
  token_address :: string
  chain_id :: int
  row_active :: int

type_synonym mirror = "string \<rightharpoonup> mirror_row"

definition sql_update_active :: "mirror \<Rightarrow> string \<Rightarrow> int \<Rightarrow> mirror" where
  "sql_update_active db i v =
     (case db i of
        None \<Rightarrow> db
      | Some row \<Rightarrow> db(i \<mapsto> row\<lparr>row_active := v\<rparr>))"

text \<open>
  The update endpoint is an oracle: the answer to the \<open>n\<close>-th \<open>PATCH\<close> of a call,
  for its webhook id and \<open>active\<close> value. \<open>patches\<close> records the requests issued.
\<close>

type_synonym patcher = "nat \<Rightarrow> string \<Rightarrow> bool \<Rightarrow> unit http"

definition updateWebhookStatus ::
  "patcher \<Rightarrow> string \<Rightarrow> bool \<Rightarrow> (string \<times> bool) list
    \<Rightarrow> js_error + (bool \<times> (string \<times> bool) list)" where
  "updateWebhookStatus api webhookId act patches =
     (case api (length patches) webhookId act of
        Rejected \<Rightarrow> Inl NetworkError
      | Response ok _ \<Rightarrow> Inr (ok, patches @ [(webhookId, act)]))"

text \<open>
  The loops of \<open>/setup/pause-webhooks\<close> and \<open>/setup/resume-webhooks\<close> are the same
  text up to the target value: pause skips on \<open>!webhook.active\<close>, patches with
  \<open>false\<close> and writes 0; resume skips on \<open>webhook.active\<close>, patches with \<open>true\<close> and
  writes 1. \<open>changed\<close> is the counter \<open>paused\<close>, respectively \<open>resumed\<close>.
\<close>

record toggle_state =
  changed :: nat
  skipped :: nat
  failed :: nat
  db :: mirror
  patches :: "(string \<times> bool) list"

definition toggle_init :: "mirror \<Rightarrow> toggle_state" where
  "toggle_init d = \<lparr> changed = 0, skipped = 0, failed = 0, db = d, patches = [] \<rparr>"

text \<open>
  One iteration of the loop body. An exception leaves the loop with the state reached
  so far: what was written to the mirror before it stays written.
\<close>

definition toggle_step ::
  "patcher \<Rightarrow> bool \<Rightarrow> webhook \<Rightarrow> toggle_state
    \<Rightarrow> (js_error \<times> toggle_state) + toggle_state" where
  "toggle_step api target webhook st =
     (if active webhook = target
      then Inr (st\<lparr>skipped := skipped st + 1\<rparr>)
      else
        case updateWebhookStatus api (wh_id webhook) target (patches st) of
          Inl e \<Rightarrow> Inl (e, st)
        | Inr (success, patches') \<Rightarrow>
            if success
            then Inr (st\<lparr>changed := changed st + 1,
                         db := sql_update_active (db st) (wh_id webhook)
                                 (if target then 1 else 0),
                         patches := patches'\<rparr>)
            else Inr (st\<lparr>failed := failed st + 1, patches := patches'\<rparr>))"

fun toggle_loop ::
  "patcher \<Rightarrow> bool \<Rightarrow> webhook list \<Rightarrow> toggle_state
    \<Rightarrow> (js_error \<times> toggle_state) + toggle_state" where
  "toggle_loop api target [] st = Inr st"
| "toggle_loop api target (webhook # rest) st =
     (case toggle_step api target webhook st of
        Inl e \<Rightarrow> Inl e
      | Inr st' \<Rightarrow> toggle_loop api target rest st')"

text \<open>
  The handlers: the whole body is inside \<open>try\<close>, and the \<open>catch\<close> answers with
  status 500 and the error message. The result is the reply and the mirror that the
  call leaves behind.
\<close>

record pause_summary =
  paused :: nat
  pause_skipped :: nat
  pause_failed :: nat
  pause_total :: nat

record resume_summary =
  resumed :: nat
  resume_skipped :: nat
  resume_failed :: nat
  resume_total :: nat

datatype 'a reply = Json 'a | Status500 js_error

definition pause_webhooks ::
  "registry \<Rightarrow> patcher \<Rightarrow> mirror \<Rightarrow> pause_summary reply \<times> mirror" where
  "pause_webhooks reg api d =
     (case snd (listAllWebhooks reg) of
        Inl e \<Rightarrow> (Status500 e, d)
      | Inr allW \<Rightarrow>
          (case toggle_loop api False allW (toggle_init d) of
             Inl (e, st) \<Rightarrow> (Status500 e, db st)
           | Inr st \<Rightarrow>
               (Json \<lparr> paused = changed st, pause_skipped = skipped st,
                       pause_failed = failed st, pause_total = length allW \<rparr>,
                db st)))"

definition resume_webhooks ::
  "registry \<Rightarrow> patcher \<Rightarrow> mirror \<Rightarrow> resume_summary reply \<times> mirror" where
  "resume_webhooks reg api d =
     (case snd (listAllWebhooks reg) of
        Inl e \<Rightarrow> (Status500 e, d)
      | Inr allW \<Rightarrow>
          (case toggle_loop api True allW (toggle_init d) of
             Inl (e, st) \<Rightarrow> (Status500 e, db st)
           | Inr st \<Rightarrow>
               (Json \<lparr> resumed = changed st, resume_skipped = skipped st,
                       resume_failed = failed st, resume_total = length allW \<rparr>,
                db st)))"

text \<open>
  Bookkeeping for the statements about a batch: whether an answer counts as a success,
  the webhooks that need an update for a target value, the answers to their updates
  (the \<open>k\<close>-th request of the call being the first of them), the ids of those whose
  update was answered with success, and the mirror after the rows of a list of ids got
  the target value.
\<close>

definition succeeded :: "unit http \<Rightarrow> bool" where
  "succeeded r = (case r of Rejected \<Rightarrow> False | Response ok _ \<Rightarrow> ok)"

definition todo :: "bool \<Rightarrow> webhook list \<Rightarrow> webhook list" where
  "todo target ws = filter (\<lambda>w. active w \<noteq> target) ws"

definition answers :: "patcher \<Rightarrow> bool \<Rightarrow> nat \<Rightarrow> webhook list \<Rightarrow> bool list" where
  "answers api target k ws =
     map (\<lambda>(n, w). succeeded (api n (wh_id w) target)) (enumerate k (todo target ws))"

definition confirmed_ids :: "patcher \<Rightarrow> bool \<Rightarrow> nat \<Rightarrow> webhook list \<Rightarrow> string list" where
  "confirmed_ids api target k ws =
     map (\<lambda>(n, w). wh_id w)
       (filter (\<lambda>(n, w). succeeded (api n (wh_id w) target)) (enumerate k (todo target ws)))"

definition mirror_after :: "mirror \<Rightarrow> bool \<Rightarrow> string list \<Rightarrow> mirror" where
  "mirror_after d target ids =
     (\<lambda>i. if i \<in> set ids
          then map_option (\<lambda>row. row\<lparr>row_active := (if target then 1 else 0)\<rparr>) (d i)
          else d i)"

text \<open>
  An assumption about the remote side, used only to say what a second call
  enumerates: a registry that honours the updates it answers with success holds,
  after a batch, the same webhooks with \<open>active\<close> set to the target for exactly
  those. \<open>k\<close> is the number of the next update request.
\<close>

fun remote_after :: "patcher \<Rightarrow> bool \<Rightarrow> nat \<Rightarrow> webhook list \<Rightarrow> webhook list" where
  "remote_after api target k [] = []"
| "remote_after api target k (w # ws) =
     (if active w = target then w # remote_after api target k ws
      else (if succeeded (api k (wh_id w) target) then w\<lparr>active := target\<rparr> else w)
             # remote_after api target (Suc k) ws)"

subsection \<open>Concrete inputs\<close>

definition example_change :: "string \<Rightarrow> real option \<Rightarrow> balance_change" where
  "example_change tx v =
     \<lparr> transaction_hash = tx, value_delta_usd = v,
       asset = Some \<lparr> symbol = Some ''FOO'', decimals = Some 18 \<rparr>,
       direction = ''in'', amount_delta = 1000000000000000000,
       subscribed_address = ''0xdeadbeef00000000000000000000000000000001'' \<rparr>"

definition always_ok :: telegram where
  "always_ok n c m = Response True ()"

definition zero_decimals_change :: balance_change where
  "zero_decimals_change =
     \<lparr> transaction_hash = ''0x1'', value_delta_usd = Some 250000,
       asset = Some \<lparr> symbol = Some ''NFT'', decimals = Some 0 \<rparr>,
       direction = ''in'', amount_delta = 5,
       subscribed_address = ''0xdeadbeef00000000000000000000000000000001'' \<rparr>"

definition example_webhook :: "string \<Rightarrow> bool \<Rightarrow> webhook" where
  "example_webhook i a = \<lparr> wh_id = i, active = a, name = None \<rparr>"

definition same_page :: registry where
  "same_page n l off =
     Response True (Some [example_webhook ''w1'' True, example_webhook ''w2'' False,
                          example_webhook ''w1'' True])"

definition reject_first :: patcher where
  "reject_first n i a = (if n = 0 then Rejected else Response True ())"

definition always_non_2xx :: patcher where
  "always_non_2xx n i a = Response False ()"

definition always_patched :: patcher where
  "always_patched n i a = Response True ()"

definition active_page :: registry where
  "active_page n l off = Response True (Some [example_webhook ''w1'' True])"

definition example_mirror :: mirror where
  "example_mirror = [''w2'' \<mapsto> \<lparr> token_address = ''0xabc'', chain_id = 1, row_active = 0 \<rparr>]"

definition resumed_page :: registry where
  "resumed_page n l off =
     Response True (Some [example_webhook ''w1'' True, example_webhook ''w2'' True])"

definition inactive_page :: registry where
  "inactive_page n l off =
     Response True (Some [example_webhook ''w2'' False, example_webhook ''w3'' False])"

definition fail_first :: patcher where
  "fail_first n i a = (if n = 0 then Response False () else Response True ())"

definition reject_second :: patcher where
  "reject_second n i a = (if n = 1 then Rejected else Response True ())"

section \<open>Properties\<close>

subsection \<open>Ingestion\<close>

lemma broadcast_loop_ok:
  assumes "\<And>n c m. tg n c m \<noteq> Rejected"
  shows "broadcast_loop tg text subs sent0 = Inr (sent0 @ map (\<lambda>c. (c, text)) subs)"
proof (induction subs arbitrary: sent0)
  case Nil
  show ?case by simp
next
  case (Cons c cs)
  obtain ok u where r: "tg (length sent0) c text = Response ok u"
    using assms by (cases "tg (length sent0) c text") auto
  show ?case
    by (simp add: sendTelegramMessage_def r Cons.IH)
qed

lemma balances_loop_hashes:
  "balances_loop tg subs cid batch st = Inr st'
    \<Longrightarrow> processedTxs st' = processedTxs st \<union> transaction_hash ` set batch"
proof (induction batch arbitrary: st)
  case Nil
  then show ?case by simp
next
  case (Cons change rest)
  show ?case
  proof (cases "transaction_hash change \<in> processedTxs st")
    case True
    with Cons.prems have "balances_loop tg subs cid rest st = Inr st'" by simp
    from Cons.IH [OF this] True show ?thesis by auto
  next
    case False
    let ?st1 = "st\<lparr>processedTxs := insert (transaction_hash change) (processedTxs st)\<rparr>"
    show ?thesis
    proof (cases "small_transaction change")
      case True
      with False Cons.prems have "balances_loop tg subs cid rest ?st1 = Inr st'"
        by simp
      from Cons.IH [OF this] show ?thesis by auto
    next
      case big: False
      from False big Cons.prems obtain sent' where
        "balances_loop tg subs cid rest
           (?st1\<lparr>broadcasts := broadcasts ?st1 @ [formatBalanceMessage change cid],
                 sent := sent'\<rparr>) = Inr st'"
        by (auto simp: Let_def split: sum.splits)
      from Cons.IH [OF this] show ?thesis by auto
    qed
  qed
qed

lemma balances_loop_ok:
  assumes "\<And>n c m. tg n c m \<noteq> Rejected"
  shows "\<exists>st'. balances_loop tg subs cid batch st = Inr st'
           \<and> broadcasts st' = broadcasts st
               @ map (\<lambda>c. formatBalanceMessage c cid)
                   (filter (\<lambda>c. \<not> small_transaction c) (fresh (processedTxs st) batch))
           \<and> sent st' = sent st
               @ fan_out subs (map (\<lambda>c. formatBalanceMessage c cid)
                   (filter (\<lambda>c. \<not> small_transaction c) (fresh (processedTxs st) batch)))"
proof (induction batch arbitrary: st)
  case Nil
  show ?case by (simp add: fan_out_def)
next
  case (Cons change rest)
  show ?case
  proof (cases "transaction_hash change \<in> processedTxs st")
    case True
    with Cons.IH [of st] show ?thesis by simp
  next
    case False
    let ?st1 = "st\<lparr>processedTxs := insert (transaction_hash change) (processedTxs st)\<rparr>"
    show ?thesis
    proof (cases "small_transaction change")
      case True
      with False Cons.IH [of ?st1] show ?thesis by simp
    next
      case big: False
      let ?m = "formatBalanceMessage change cid"
      let ?st2 = "?st1\<lparr>broadcasts := broadcasts ?st1 @ [?m],
                       sent := sent st @ map (\<lambda>c. (c, ?m)) subs\<rparr>"
      have b: "broadcastToSubscribers tg subs ?m (sent ?st1)
                 = Inr (sent st @ map (\<lambda>c. (c, ?m)) subs)"
        by (simp add: broadcastToSubscribers_def broadcast_loop_ok [OF assms])
      from Cons.IH [of ?st2] False big b show ?thesis
        by (simp add: fan_out_def Let_def)
    qed
  qed
qed

text \<open>
  C1. Whenever \<open>POST /balances\<close> responds, \<open>processed\<close> is the number of distinct
  transaction hashes of the batch, whatever the materiality filter dropped and whatever
  the sends answered; and it responds whenever no send is rejected. (A rejected send
  propagates out of the handler, which then sends no response at all.)
\<close>

theorem balances_processed_distinct_hashes:
  "(balances tg subs cid batch = Inl NetworkError
      \<or> balances tg subs cid batch = Inr (card (transaction_hash ` set batch)))
   \<and> ((\<forall>n c m. tg n c m \<noteq> Rejected)
        \<longrightarrow> balances tg subs cid batch = Inr (card (transaction_hash ` set batch)))"
proof
  show "balances tg subs cid batch = Inl NetworkError
      \<or> balances tg subs cid batch = Inr (card (transaction_hash ` set batch))"
  proof (cases "balances_loop tg subs cid batch ingest_init")
    case (Inl e)
    then show ?thesis by (cases e) (simp add: balances_def)
  next
    case (Inr st')
    from balances_loop_hashes [OF Inr] have "processedTxs st' = transaction_hash ` set batch"
      by (simp add: ingest_init_def)
    with Inr show ?thesis by (simp add: balances_def)
  qed
next
  show "(\<forall>n c m. tg n c m \<noteq> Rejected)
        \<longrightarrow> balances tg subs cid batch = Inr (card (transaction_hash ` set batch))"
  proof
    assume a: "\<forall>n c m. tg n c m \<noteq> Rejected"
    then obtain st' where r: "balances_loop tg subs cid batch ingest_init = Inr st'"
      using balances_loop_ok [of tg subs cid batch ingest_init] by blast
    from balances_loop_hashes [OF r] have "processedTxs st' = transaction_hash ` set batch"
      by (simp add: ingest_init_def)
    with r show "balances tg subs cid batch = Inr (card (transaction_hash ` set batch))"
      by (simp add: balances_def)
  qed
qed

theorem balances_processed_distinct_hashes_witness:
  "(\<forall>n c m. always_ok n c m \<noteq> Rejected)
   \<and> balances always_ok [''7''] 1
        [example_change ''0xa'' (Some 50), example_change ''0xa'' (Some 500),
         example_change ''0xb'' (Some 500)] = Inr 2"
  using balances_processed_distinct_hashes [of always_ok "[''7'']" 1
        "[example_change ''0xa'' (Some 50), example_change ''0xa'' (Some 500),
          example_change ''0xb'' (Some 500)]"]
  by (simp add: always_ok_def example_change_def)

lemma fresh_mem:
  "e \<in> set (fresh seen xs) \<Longrightarrow> transaction_hash e \<notin> seen \<and> e \<in> set xs"
  by (induction xs arbitrary: seen) (auto split: if_splits)

lemma fresh_append:
  "fresh seen (xs @ ys) = fresh seen xs @ fresh (seen \<union> transaction_hash ` set xs) ys"
  by (induction xs arbitrary: seen) (auto simp: insert_absorb)

lemma format_same_hash:
  assumes "formatBalanceMessage a cid = formatBalanceMessage b cid"
  shows "transaction_hash a = transaction_hash b"
proof -
  from assms have "tx_link (formatBalanceMessage a cid) = tx_link (formatBalanceMessage b cid)"
    by simp
  then show ?thesis
    by (simp add: formatBalanceMessage_def getExplorerLink_def Let_def)
qed

lemma fresh_first_occurrence:
  assumes "transaction_hash change \<notin> transaction_hash ` set pre"
  shows "change \<in> set (fresh {} (pre @ change # post))"
    and "e \<in> set (fresh {} (pre @ change # post))
          \<Longrightarrow> transaction_hash e = transaction_hash change \<Longrightarrow> e = change"
proof -
  let ?h = "transaction_hash change"
  have split: "fresh {} (pre @ change # post)
      = fresh {} pre @ change # fresh (insert ?h (transaction_hash ` set pre)) post"
    using assms by (simp add: fresh_append)
  show "change \<in> set (fresh {} (pre @ change # post))"
    by (simp add: split)
  assume e: "e \<in> set (fresh {} (pre @ change # post))" and h: "transaction_hash e = ?h"
  from e split consider "e \<in> set (fresh {} pre)" | "e = change"
    | "e \<in> set (fresh (insert ?h (transaction_hash ` set pre)) post)"
    by auto
  then show "e = change"
  proof cases
    case 1
    then have "e \<in> set pre" using fresh_mem by blast
    then have "transaction_hash e \<in> transaction_hash ` set pre" by simp
    with h assms show ?thesis by simp
  next
    case 2
    then show ?thesis .
  next
    case 3
    then have "transaction_hash e \<noteq> ?h" using fresh_mem by blast
    with h show ?thesis by simp
  qed
qed

lemma alerted_iff:
  assumes "transaction_hash change \<notin> transaction_hash ` set pre"
  shows "formatBalanceMessage change cid
           \<in> set (map (\<lambda>c. formatBalanceMessage c cid)
                (filter (\<lambda>c. \<not> small_transaction c) (fresh {} (pre @ change # post))))
         \<longleftrightarrow> \<not> small_transaction change"
proof
  assume "formatBalanceMessage change cid
           \<in> set (map (\<lambda>c. formatBalanceMessage c cid)
                (filter (\<lambda>c. \<not> small_transaction c) (fresh {} (pre @ change # post))))"
  then obtain e where e: "e \<in> set (fresh {} (pre @ change # post))"
    and keep: "\<not> small_transaction e"
    and eq: "formatBalanceMessage e cid = formatBalanceMessage change cid"
    by auto
  from fresh_first_occurrence(2) [OF assms e format_same_hash [OF eq]] keep
  show "\<not> small_transaction change" by simp
next
  assume "\<not> small_transaction change"
  with fresh_first_occurrence(1) [OF assms, of post]
  show "formatBalanceMessage change cid
           \<in> set (map (\<lambda>c. formatBalanceMessage c cid)
                (filter (\<lambda>c. \<not> small_transaction c) (fresh {} (pre @ change # post))))"
    by auto
qed

lemma fan_out_mem: "(c, m) \<in> set (fan_out subs msgs) \<longleftrightarrow> c \<in> set subs \<and> m \<in> set msgs"
  by (auto simp: fan_out_def)

text \<open>
  C5. Take a batch \<open>pre @ change # post\<close> in which no earlier event carries the hash
  of \<open>change\<close> (so \<open>change\<close> survives the deduplication), let its \<open>value_delta_usd\<close>
  be the number \<open>v\<close>, and let no send be rejected. Then the handler's loop completes,
  and: when \<open>v\<close> is 100 (or more) the alert of \<open>change\<close> is handed to the broadcaster and
  sent to every subscriber; when \<open>v\<close> is below 100 its alert is neither handed to the
  broadcaster nor sent to anyone.
\<close>

theorem materiality_threshold_boundary:
  assumes "\<forall>n c m. tg n c m \<noteq> Rejected"
    and "transaction_hash change \<notin> transaction_hash ` set pre"
    and "value_delta_usd change = Some v"
  shows "\<exists>st. balances_loop tg subs cid (pre @ change # post) ingest_init = Inr st
     \<and> (100 \<le> v \<longrightarrow>
          formatBalanceMessage change cid \<in> set (broadcasts st)
          \<and> (\<forall>c \<in> set subs. (c, formatBalanceMessage change cid) \<in> set (sent st)))
     \<and> (v < 100 \<longrightarrow>
          formatBalanceMessage change cid \<notin> set (broadcasts st)
          \<and> (\<forall>c. (c, formatBalanceMessage change cid) \<notin> set (sent st)))"
proof -
  from assms(1) have ok: "\<And>n c m. tg n c m \<noteq> Rejected" by simp
  from balances_loop_ok [of tg subs cid "pre @ change # post" ingest_init, OF ok]
  obtain st where run: "balances_loop tg subs cid (pre @ change # post) ingest_init = Inr st"
    and b: "broadcasts st = map (\<lambda>c. formatBalanceMessage c cid)
              (filter (\<lambda>c. \<not> small_transaction c) (fresh {} (pre @ change # post)))"
    and s: "sent st = fan_out subs (broadcasts st)"
    by (auto simp: ingest_init_def)
  have small: "small_transaction change \<longleftrightarrow> v < 100"
    using assms(3) by (simp add: small_transaction_def)
  have mem: "formatBalanceMessage change cid \<in> set (broadcasts st) \<longleftrightarrow> \<not> v < 100"
    unfolding b using alerted_iff [OF assms(2), of cid post] small by simp
  show ?thesis
    using run mem by (auto simp: s fan_out_mem)
qed

theorem materiality_threshold_boundary_witness:
  "(\<forall>n c m. always_ok n c m \<noteq> Rejected)
   \<and> transaction_hash (example_change ''0xa'' (Some 100)) \<notin> transaction_hash ` set []
   \<and> value_delta_usd (example_change ''0xa'' (Some 100)) = Some 100
   \<and> (\<exists>st. balances_loop always_ok [''7''] 1
              ([] @ example_change ''0xa'' (Some 100) # [example_change ''0xb'' (Some 99)])
              ingest_init = Inr st
         \<and> formatBalanceMessage (example_change ''0xa'' (Some 100)) 1 \<in> set (broadcasts st)
         \<and> (''7'', formatBalanceMessage (example_change ''0xa'' (Some 100)) 1) \<in> set (sent st))"
proof -
  have h1: "\<forall>n c m. always_ok n c m \<noteq> Rejected"
    by (simp add: always_ok_def)
  have h2: "transaction_hash (example_change ''0xa'' (Some 100)) \<notin> transaction_hash ` set []"
    by simp
  have h3: "value_delta_usd (example_change ''0xa'' (Some 100)) = Some 100"
    by (simp add: example_change_def)
  have h4: "(100::real) \<le> 100" and h5: "''7'' \<in> set [''7'']"
    by simp_all
  from materiality_threshold_boundary [OF h1 h2 h3, of "[''7'']" 1
      "[example_change ''0xb'' (Some 99)]"] h1 h2 h3 h4 h5
  show ?thesis by blast
qed

text \<open>
  C10. An event that survives the deduplication and has no \<open>value_delta_usd\<close> is not
  dropped by the materiality filter: when no send is rejected its alert is handed to the
  broadcaster and sent to every subscriber, and that alert shows the USD value 0 and
  one severity glyph.
\<close>

theorem missing_usd_value_is_alerted:
  assumes "\<forall>n c m. tg n c m \<noteq> Rejected"
    and "transaction_hash change \<notin> transaction_hash ` set pre"
    and "value_delta_usd change = None"
  shows "\<exists>st. balances_loop tg subs cid (pre @ change # post) ingest_init = Inr st
     \<and> formatBalanceMessage change cid \<in> set (broadcasts st)
     \<and> (\<forall>c \<in> set subs. (c, formatBalanceMessage change cid) \<in> set (sent st))
     \<and> usd (formatBalanceMessage change cid) = 0
     \<and> emoji_count (formatBalanceMessage change cid) = 1"
proof -
  from assms(1) have ok: "\<And>n c m. tg n c m \<noteq> Rejected" by simp
  from balances_loop_ok [of tg subs cid "pre @ change # post" ingest_init, OF ok]
  obtain st where run: "balances_loop tg subs cid (pre @ change # post) ingest_init = Inr st"
    and b: "broadcasts st = map (\<lambda>c. formatBalanceMessage c cid)
              (filter (\<lambda>c. \<not> small_transaction c) (fresh {} (pre @ change # post)))"
    and s: "sent st = fan_out subs (broadcasts st)"
    by (auto simp: ingest_init_def)
  have keep: "\<not> small_transaction change"
    using assms(3) by (simp add: small_transaction_def)
  have mem: "formatBalanceMessage change cid \<in> set (broadcasts st)"
    unfolding b using alerted_iff [OF assms(2), of cid post] keep by simp
  have shown: "usd (formatBalanceMessage change cid) = 0
      \<and> emoji_count (formatBalanceMessage change cid) = 1"
    using assms(3)
    by (simp add: formatBalanceMessage_def usdValue_of_def emojiCount_of_def Let_def)
  show ?thesis
    using run mem shown by (auto simp: s fan_out_mem)
qed

theorem missing_usd_value_is_alerted_witness:
  "(\<forall>n c m. always_ok n c m \<noteq> Rejected)
   \<and> transaction_hash (example_change ''0xc'' None)
        \<notin> transaction_hash ` set [example_change ''0xa'' (Some 5)]
   \<and> value_delta_usd (example_change ''0xc'' None) = None
   \<and> (\<exists>st. balances_loop always_ok [''7'', ''8''] 1
              ([example_change ''0xa'' (Some 5)] @ example_change ''0xc'' None # [])
              ingest_init = Inr st
         \<and> formatBalanceMessage (example_change ''0xc'' None) 1 \<in> set (broadcasts st)
         \<and> (''8'', formatBalanceMessage (example_change ''0xc'' None) 1) \<in> set (sent st)
         \<and> usd (formatBalanceMessage (example_change ''0xc'' None) 1) = 0
         \<and> emoji_count (formatBalanceMessage (example_change ''0xc'' None) 1) = 1)"
proof -
  have h1: "\<forall>n c m. always_ok n c m \<noteq> Rejected"
    by (simp add: always_ok_def)
  have h2: "transaction_hash (example_change ''0xc'' None)
        \<notin> transaction_hash ` set [example_change ''0xa'' (Some 5)]"
    by (simp add: example_change_def)
  have h3: "value_delta_usd (example_change ''0xc'' None) = None"
    by (simp add: example_change_def)
  have h4: "''8'' \<in> set [''7'', ''8'']"
    by simp
  from missing_usd_value_is_alerted [OF h1 h2 h3, of "[''7'', ''8'']" 1 "[]"] h1 h2 h3 h4
  show ?thesis by blast
qed

subsection \<open>Alert formatter\<close>

text \<open>
  C6. For events that carry a numeric USD value, the number of severity glyphs is
  monotonic non-decreasing in that value, and it is 1 below 100,000, 2 on
  [100,000, 500,000), 3 on [500,000, 1,000,000), 4 on [1,000,000, 10,000,000) and 5
  from 10,000,000 on.
\<close>

theorem severity_tiers_monotone:
  assumes "value_delta_usd a = Some u" and "value_delta_usd b = Some v"
  shows "(u \<le> v \<longrightarrow>
            emoji_count (formatBalanceMessage a cid) \<le> emoji_count (formatBalanceMessage b cid'))
     \<and> (v < 100000 \<longrightarrow> emoji_count (formatBalanceMessage b cid') = 1)
     \<and> (100000 \<le> v \<and> v < 500000 \<longrightarrow> emoji_count (formatBalanceMessage b cid') = 2)
     \<and> (500000 \<le> v \<and> v < 1000000 \<longrightarrow> emoji_count (formatBalanceMessage b cid') = 3)
     \<and> (1000000 \<le> v \<and> v < 10000000 \<longrightarrow> emoji_count (formatBalanceMessage b cid') = 4)
     \<and> (10000000 \<le> v \<longrightarrow> emoji_count (formatBalanceMessage b cid') = 5)"
proof -
  have ea: "emoji_count (formatBalanceMessage a cid) = emojiCount_of u"
    using assms(1) by (simp add: formatBalanceMessage_def usdValue_of_def Let_def)
  have eb: "emoji_count (formatBalanceMessage b cid') = emojiCount_of v"
    using assms(2) by (simp add: formatBalanceMessage_def usdValue_of_def Let_def)
  show ?thesis
    unfolding ea eb by (simp add: emojiCount_of_def)
qed

theorem severity_tiers_monotone_witness:
  "value_delta_usd (example_change ''0xa'' (Some 99999)) = Some 99999
   \<and> value_delta_usd (example_change ''0xb'' (Some 100000)) = Some 100000
   \<and> emoji_count (formatBalanceMessage (example_change ''0xa'' (Some 99999)) 1)
        \<le> emoji_count (formatBalanceMessage (example_change ''0xb'' (Some 100000)) 1)
   \<and> emoji_count (formatBalanceMessage (example_change ''0xb'' (Some 100000)) 1) = 2"
proof -
  have h1: "value_delta_usd (example_change ''0xa'' (Some 99999)) = Some 99999"
    by (simp add: example_change_def)
  have h2: "value_delta_usd (example_change ''0xb'' (Some 100000)) = Some 100000"
    by (simp add: example_change_def)
  have h3: "(99999::real) \<le> 100000" and h4: "(100000::real) \<le> 100000 \<and> (100000::real) < 500000"
    by simp_all
  from severity_tiers_monotone [OF h1 h2, of 1 1] h1 h2 h3 h4
  show ?thesis by blast
qed

text \<open>
  C7. The claim: the token amount is \<open>amount_delta / 10 ^ decimals\<close> with the asset's
  own \<open>decimals\<close> whenever the asset supplies it, also when it supplies 0. The code
  takes \<open>decimals || 18\<close>, and 0 is falsy: an asset with \<open>decimals = 0\<close> and an amount
  of 5 units is shown as \<open>5 / 10 ^ 18\<close>, not as 5.
\<close>

theorem zero_decimals_divided_by_ten_to_18:
  "decimals_of zero_decimals_change = 18
   \<and> amount (formatBalanceMessage zero_decimals_change 1) = 5 / 10 ^ 18
   \<and> amount (formatBalanceMessage zero_decimals_change 1) \<noteq> 5 / 10 ^ 0"
  by (simp add: formatBalanceMessage_def decimals_of_def zero_decimals_change_def Let_def)

subsection \<open>Chain registry\<close>

text \<open>
  C8. The claim: a name outside the mapping resolves to "unsupported", never to
  chain 1. In \<open>index.js\<close> the name \<open>solana\<close> gives \<open>null\<close> and the caller skips the
  token; in \<open>main.js\<close> the same name gives chain id 1 and the caller's skip does not
  fire.
\<close>

theorem unknown_chain_defaults_to_1_in_main:
  "map_of chain_map_main (toLowerCase ''solana'') = None
   \<and> getChainId_main ''solana'' = ChainId 1
   \<and> \<not> skips_token (getChainId_main ''solana'')
   \<and> getChainId ''solana'' = Null
   \<and> skips_token (getChainId ''solana'')"
  by (simp add: getChainId_main_def getChainId_def chain_map_main_def chain_map_def
      toLowerCase_def lower_char_def inherited_names_def skips_token_def)

subsection \<open>Webhook enumeration\<close>

lemma page_loop_unseen:
  "page_loop ws allW seen n
     = (allW @ unseen seen ws, seen \<union> wh_id ` set ws, n + length (unseen seen ws))"
  by (induction ws arbitrary: allW seen n) (auto simp: insert_absorb)

lemma unseen_ids: "wh_id ` set (unseen seen ws) = wh_id ` set ws - seen"
  by (induction ws arbitrary: seen) auto

lemma unseen_distinct: "distinct (map wh_id (unseen seen ws))"
proof (induction ws arbitrary: seen)
  case Nil
  show ?case by simp
next
  case (Cons w ws)
  have "wh_id w \<notin> wh_id ` set (unseen (insert (wh_id w) seen) ws)"
    by (simp add: unseen_ids)
  with Cons show ?case by simp
qed

lemma unseen_subset: "set (unseen seen ws) \<subseteq> set ws"
  by (induction ws arbitrary: seen) auto

lemma unseen_dedupe:
  "unseen seen ws = dedupe_by_id (filter (\<lambda>w. wh_id w \<notin> seen) ws)"
proof (induction ws arbitrary: seen)
  case Nil
  show ?case by simp
next
  case (Cons w ws)
  have "filter (\<lambda>v. wh_id v \<noteq> wh_id w) (filter (\<lambda>w. wh_id w \<notin> seen) ws)
      = filter (\<lambda>v. wh_id v \<notin> insert (wh_id w) seen) ws"
    by (simp add: conj_commute)
  with Cons show ?case by simp
qed

lemma page_loop_inv:
  assumes "distinct (map wh_id allW)" and "seen = wh_id ` set allW"
  shows "distinct (map wh_id (fst (page_loop ws allW seen n)))
        \<and> fst (snd (page_loop ws allW seen n)) = wh_id ` set (fst (page_loop ws allW seen n))"
proof -
  have "wh_id ` set allW \<inter> wh_id ` set (unseen seen ws) = {}"
    using assms(2) by (auto simp: unseen_ids)
  then have "distinct (map wh_id (allW @ unseen seen ws))"
    using assms(1) by (simp add: unseen_distinct)
  moreover have "seen \<union> wh_id ` set ws = wh_id ` set (allW @ unseen seen ws)"
    using assms(2) by (auto simp: unseen_ids image_Un)
  ultimately show ?thesis by (simp add: page_loop_unseen)
qed

lemma loop_inv:
  "distinct (map wh_id (allWebhooks st)) \<Longrightarrow> seenIds st = wh_id ` set (allWebhooks st)
    \<Longrightarrow> iterations st \<le> maxIterations
    \<Longrightarrow> fst (listAllWebhooks_loop reg st) \<le> maxIterations
      \<and> (\<forall>ws. snd (listAllWebhooks_loop reg st) = Inr ws \<longrightarrow> distinct (map wh_id ws))
      \<and> ((\<forall>n l off. reg n l off \<noteq> Rejected)
            \<longrightarrow> (\<exists>ws. snd (listAllWebhooks_loop reg st) = Inr ws))"
proof (induction "maxIterations - iterations st" arbitrary: st)
  case 0
  then show ?case
    by (subst (1 2 3) listAllWebhooks_loop.simps) simp
next
  case (Suc k)
  then have lt: "iterations st < maxIterations" by simp
  let ?r = "\<lambda>ws. page_loop ws (allWebhooks st) (seenIds st) 0"
  let ?st2 = "\<lambda>ws. \<lparr> allWebhooks = fst (?r ws), seenIds = fst (snd (?r ws)),
                   offset = offset st + limit, iterations = iterations st + 1 \<rparr>"
  have IH: "fst (listAllWebhooks_loop reg (?st2 ws)) \<le> maxIterations
      \<and> (\<forall>ws'. snd (listAllWebhooks_loop reg (?st2 ws)) = Inr ws' \<longrightarrow> distinct (map wh_id ws'))
      \<and> ((\<forall>n l off. reg n l off \<noteq> Rejected)
            \<longrightarrow> (\<exists>ws'. snd (listAllWebhooks_loop reg (?st2 ws)) = Inr ws'))" for ws
    using Suc.hyps(1) [of "?st2 ws"] Suc.hyps(2) lt
      page_loop_inv [OF Suc.prems(1) Suc.prems(2), of ws 0]
    by simp
  show ?case
  proof (cases "reg (iterations st) limit (offset st)")
    case Rejected
    then show ?thesis using lt
      by (subst (1 2 3) listAllWebhooks_loop.simps) auto
  next
    case (Response ok body)
    show ?thesis
      using lt Response Suc.prems(1) IH page_loop_inv [OF Suc.prems(1) Suc.prems(2)]
      by (subst (1 2 3) listAllWebhooks_loop.simps) (auto simp: Let_def split: option.splits)
  qed
qed


lemma unseen_all_seen: "wh_id ` set ws \<subseteq> seen \<Longrightarrow> unseen seen ws = []"
  by (induction ws arbitrary: seen) auto

lemma unseen_empty: "unseen {} ws = dedupe_by_id ws"
  by (simp add: unseen_dedupe)

lemma dedupe_nonempty: "ws \<noteq> [] \<Longrightarrow> dedupe_by_id ws \<noteq> []"
  by (cases ws) auto

lemma listAllWebhooks_fixed_page:
  assumes "\<forall>n l off. reg n l off = Response True (Some page)"
  shows "listAllWebhooks reg
      = (if page = [] \<or> length page < limit then 1 else 2, Inr (dedupe_by_id page))"
proof -
  let ?st1 = "\<lparr> allWebhooks = dedupe_by_id page, seenIds = wh_id ` set page,
                offset = limit, iterations = Suc 0 \<rparr>"
  have reg: "reg n l off = Response True (Some page)" for n l off
    using assms by simp
  have first: "page_loop page [] {} 0
      = (dedupe_by_id page, wh_id ` set page, length (dedupe_by_id page))"
    by (simp add: page_loop_unseen unseen_empty)
  have again: "page_loop page (dedupe_by_id page) (wh_id ` set page) 0
      = (dedupe_by_id page, wh_id ` set page, 0)"
    by (simp add: page_loop_unseen unseen_all_seen)
  have second: "page \<noteq> [] \<Longrightarrow> listAllWebhooks_loop reg ?st1 = (2, Inr (dedupe_by_id page))"
    by (subst listAllWebhooks_loop.simps) (simp add: reg again maxIterations_def)
  show ?thesis
    unfolding listAllWebhooks_def
    by (subst listAllWebhooks_loop.simps)
      (auto simp: reg first second maxIterations_def dedupe_nonempty)
qed

lemma dedupe_by_id_props:
  "distinct (map wh_id (dedupe_by_id page))
     \<and> wh_id ` set (dedupe_by_id page) = wh_id ` set page
     \<and> set (dedupe_by_id page) \<subseteq> set page"
  using unseen_distinct [of "{}" page] unseen_ids [of "{}" page] unseen_subset [of "{}" page]
  by (simp add: unseen_empty)

text \<open>
  C2. Against a registry that ignores the offset and answers every page request with
  the same page, the enumeration issues at most two requests (one, when the page is
  empty or shorter than the page size), so it does not run to the ceiling of 50, and
  it returns that page deduplicated by id: the first webhook of each id, in the order
  of the page.
\<close>

theorem offset_ignoring_registry:
  assumes "\<forall>n l off. reg n l off = Response True (Some page)"
  shows "snd (listAllWebhooks reg) = Inr (dedupe_by_id page)
     \<and> fst (listAllWebhooks reg) \<le> 2
     \<and> fst (listAllWebhooks reg) < maxIterations
     \<and> distinct (map wh_id (dedupe_by_id page))
     \<and> wh_id ` set (dedupe_by_id page) = wh_id ` set page
     \<and> set (dedupe_by_id page) \<subseteq> set page"
  using dedupe_by_id_props [of page]
  by (simp add: listAllWebhooks_fixed_page [OF assms] maxIterations_def)

theorem offset_ignoring_registry_witness:
  "(\<forall>n l off. same_page n l off
       = Response True (Some [example_webhook ''w1'' True, example_webhook ''w2'' False,
                              example_webhook ''w1'' True]))
   \<and> snd (listAllWebhooks same_page)
       = Inr [example_webhook ''w1'' True, example_webhook ''w2'' False]
   \<and> fst (listAllWebhooks same_page) \<le> 2"
proof -
  have h: "\<forall>n l off. same_page n l off
       = Response True (Some [example_webhook ''w1'' True, example_webhook ''w2'' False,
                              example_webhook ''w1'' True])"
    by (simp add: same_page_def)
  have d: "dedupe_by_id [example_webhook ''w1'' True, example_webhook ''w2'' False,
                              example_webhook ''w1'' True]
      = [example_webhook ''w1'' True, example_webhook ''w2'' False]"
    by (simp add: example_webhook_def)
  from offset_ignoring_registry [OF h, unfolded d] h show ?thesis by blast
qed

text \<open>
  C9. Whatever the registry answers, the enumeration stops after at most 50 page
  requests, and the list it returns holds every id at most once; it returns a list
  whenever no page request is rejected. (The loop is a total function: the measure
  \<open>maxIterations - iterations\<close> decreases in every round.)
\<close>

theorem enumeration_finite_distinct_bounded:
  "fst (listAllWebhooks reg) \<le> 50
   \<and> (\<forall>ws. snd (listAllWebhooks reg) = Inr ws \<longrightarrow> distinct (map wh_id ws))
   \<and> ((\<forall>n l off. reg n l off \<noteq> Rejected) \<longrightarrow> (\<exists>ws. snd (listAllWebhooks reg) = Inr ws))"
  using loop_inv [of "\<lparr> allWebhooks = [], seenIds = {}, offset = 0, iterations = 0 \<rparr>" reg]
  by (simp add: listAllWebhooks_def maxIterations_def)

theorem enumeration_finite_distinct_bounded_witness:
  "(\<forall>n l off. same_page n l off \<noteq> Rejected)
   \<and> (\<exists>ws. snd (listAllWebhooks same_page) = Inr ws \<and> distinct (map wh_id ws))
   \<and> fst (listAllWebhooks same_page) \<le> 50"
proof -
  have h: "\<forall>n l off. same_page n l off \<noteq> Rejected"
    by (simp add: same_page_def)
  from enumeration_finite_distinct_bounded [of same_page] h show ?thesis by blast
qed

subsection \<open>Pause and resume\<close>

lemma toggle_step_skip:
  "active w = target \<Longrightarrow> toggle_step api target w st = Inr (st\<lparr>skipped := skipped st + 1\<rparr>)"
  by (simp add: toggle_step_def)

lemma toggle_step_success:
  "active w \<noteq> target \<Longrightarrow> api (length (patches st)) (wh_id w) target = Response True u
    \<Longrightarrow> toggle_step api target w st
        = Inr (st\<lparr>changed := changed st + 1,
                   db := sql_update_active (db st) (wh_id w) (if target then 1 else 0),
                   patches := patches st @ [(wh_id w, target)]\<rparr>)"
  by (simp add: toggle_step_def updateWebhookStatus_def)

lemma toggle_step_non_2xx:
  "active w \<noteq> target \<Longrightarrow> api (length (patches st)) (wh_id w) target = Response False u
    \<Longrightarrow> toggle_step api target w st
        = Inr (st\<lparr>failed := failed st + 1, patches := patches st @ [(wh_id w, target)]\<rparr>)"
  by (simp add: toggle_step_def updateWebhookStatus_def)

lemma toggle_step_rejected:
  "active w \<noteq> target \<Longrightarrow> api (length (patches st)) (wh_id w) target = Rejected
    \<Longrightarrow> toggle_step api target w st = Inl (NetworkError, st)"
  by (simp add: toggle_step_def updateWebhookStatus_def)

lemma toggle_loop_append:
  "toggle_loop api target pre st = Inr st1
    \<Longrightarrow> toggle_loop api target (pre @ rest) st = toggle_loop api target rest st1"
  by (induction pre arbitrary: st) (auto split: sum.splits)

lemma sql_update_active_apply:
  "sql_update_active d i v
     = (\<lambda>j. if j = i then map_option (\<lambda>row. row\<lparr>row_active := v\<rparr>) (d j) else d j)"
  by (auto simp: sql_update_active_def split: option.splits)

lemma mirror_after_Nil: "mirror_after d target [] = d"
  by (simp add: mirror_after_def)

lemma mirror_after_Cons:
  "mirror_after (sql_update_active d i (if target then 1 else 0)) target ids
     = mirror_after d target (i # ids)"
  by (rule ext) (auto simp: mirror_after_def sql_update_active_apply option.map_comp o_def)

lemma toggle_loop_ok:
  assumes "\<And>n i a. api n i a \<noteq> Rejected"
  shows "\<exists>st'. toggle_loop api target ws st = Inr st'
     \<and> patches st' = patches st @ map (\<lambda>w. (wh_id w, target)) (todo target ws)
     \<and> skipped st' = skipped st + length (filter (\<lambda>w. active w = target) ws)
     \<and> changed st' = changed st
          + length (filter (\<lambda>b. b) (answers api target (length (patches st)) ws))
     \<and> failed st' = failed st
          + length (filter (\<lambda>b. \<not> b) (answers api target (length (patches st)) ws))
     \<and> db st' = mirror_after (db st) target
          (confirmed_ids api target (length (patches st)) ws)"
proof (induction ws arbitrary: st)
  case Nil
  show ?case by (simp add: todo_def answers_def confirmed_ids_def mirror_after_Nil)
next
  case (Cons w ws)
  show ?case
  proof (cases "active w = target")
    case True
    from Cons.IH [of "st\<lparr>skipped := skipped st + 1\<rparr>"] True show ?thesis
      by (auto simp: toggle_step_skip todo_def answers_def confirmed_ids_def)
  next
    case False
    obtain ok u where r: "api (length (patches st)) (wh_id w) target = Response ok u"
      using assms by (cases "api (length (patches st)) (wh_id w) target") auto
    show ?thesis
    proof (cases ok)
      case True
      let ?st' = "st\<lparr>changed := changed st + 1,
                      db := sql_update_active (db st) (wh_id w) (if target then 1 else 0),
                      patches := patches st @ [(wh_id w, target)]\<rparr>"
      have step: "toggle_step api target w st = Inr ?st'"
        using False r True by (simp add: toggle_step_success)
      have ids: "confirmed_ids api target (length (patches st)) (w # ws)
          = wh_id w # confirmed_ids api target (Suc (length (patches st))) ws"
        using False r True by (simp add: confirmed_ids_def todo_def succeeded_def)
      have ans: "answers api target (length (patches st)) (w # ws)
          = True # answers api target (Suc (length (patches st))) ws"
        using False r True by (simp add: answers_def todo_def succeeded_def)
      have td: "todo target (w # ws) = w # todo target ws"
        using False by (simp add: todo_def)
      from Cons.IH [of ?st'] False show ?thesis
        by (auto simp: step ids ans td mirror_after_Cons)
    next
      case no: False
      let ?st' = "st\<lparr>failed := failed st + 1,
                      patches := patches st @ [(wh_id w, target)]\<rparr>"
      have step: "toggle_step api target w st = Inr ?st'"
        using False r no by (simp add: toggle_step_non_2xx)
      have ids: "confirmed_ids api target (length (patches st)) (w # ws)
          = confirmed_ids api target (Suc (length (patches st))) ws"
        using False r no by (simp add: confirmed_ids_def todo_def succeeded_def)
      have ans: "answers api target (length (patches st)) (w # ws)
          = False # answers api target (Suc (length (patches st))) ws"
        using False r no by (simp add: answers_def todo_def succeeded_def)
      have td: "todo target (w # ws) = w # todo target ws"
        using False by (simp add: todo_def)
      from Cons.IH [of ?st'] False show ?thesis
        by (auto simp: step ids ans td)
    qed
  qed
qed

lemma toggle_loop_all_skipped:
  "\<forall>w \<in> set ws. active w = target
    \<Longrightarrow> toggle_loop api target ws st = Inr (st\<lparr>skipped := skipped st + length ws\<rparr>)"
  by (induction ws arbitrary: st) (auto simp: toggle_step_def)

lemma answers_split:
  "length (filter (\<lambda>b. b) (answers api t k ws))
     + length (filter (\<lambda>b. \<not> b) (answers api t k ws)) = length (todo t ws)"
  using sum_length_filter_compl [of "\<lambda>b. b" "answers api t k ws"]
  by (simp add: answers_def)

lemma todo_split:
  "length (filter (\<lambda>w. active w = t) ws) + length (todo t ws) = length ws"
  using sum_length_filter_compl [of "\<lambda>w. active w = t" ws]
  by (simp add: todo_def)

lemma remote_after_length: "length (remote_after api t k ws) = length ws"
  by (induction ws arbitrary: k) auto

lemma remote_after_settled:
  "length (filter (\<lambda>w. active w = t) (remote_after api t k ws))
     = length (filter (\<lambda>w. active w = t) ws) + length (filter (\<lambda>b. b) (answers api t k ws))"
  by (induction ws arbitrary: k) (auto simp: answers_def todo_def)

lemma remote_after_all_settled:
  assumes "\<And>n i. succeeded (api n i t)"
  shows "\<forall>w \<in> set (remote_after api t k ws). active w = t"
  using assms by (induction ws arbitrary: k) auto

lemma same_page_listing:
  "snd (listAllWebhooks same_page)
     = Inr [example_webhook ''w1'' True, example_webhook ''w2'' False]"
proof -
  have h: "\<forall>n l off. same_page n l off
       = Response True (Some [example_webhook ''w1'' True, example_webhook ''w2'' False,
                              example_webhook ''w1'' True])"
    by (simp add: same_page_def)
  show ?thesis
    by (simp add: listAllWebhooks_fixed_page [OF h] example_webhook_def)
qed

lemma active_page_listing:
  "snd (listAllWebhooks active_page) = Inr [example_webhook ''w1'' True]"
proof -
  have h: "\<forall>n l off. active_page n l off = Response True (Some [example_webhook ''w1'' True])"
    by (simp add: active_page_def)
  show ?thesis
    by (simp add: listAllWebhooks_fixed_page [OF h])
qed

lemma resumed_page_listing:
  "snd (listAllWebhooks resumed_page)
     = Inr [example_webhook ''w1'' True, example_webhook ''w2'' True]"
proof -
  have h: "\<forall>n l off. resumed_page n l off
       = Response True (Some [example_webhook ''w1'' True, example_webhook ''w2'' True])"
    by (simp add: resumed_page_def)
  show ?thesis
    by (simp add: listAllWebhooks_fixed_page [OF h] example_webhook_def)
qed

lemma resume_webhooks_answered:
  assumes "\<And>n i a. api n i a \<noteq> Rejected" and "snd (listAllWebhooks reg) = Inr ws"
  shows "resume_webhooks reg api d
     = (Json \<lparr> resumed = length (filter (\<lambda>b. b) (answers api True 0 ws)),
               resume_skipped = length (filter active ws),
               resume_failed = length (filter (\<lambda>b. \<not> b) (answers api True 0 ws)),
               resume_total = length ws \<rparr>,
        mirror_after d True (confirmed_ids api True 0 ws))"
  using toggle_loop_ok [of api True ws "toggle_init d", OF assms(1)] assms(2)
  by (auto simp: resume_webhooks_def toggle_init_def)

lemma pause_webhooks_answered:
  assumes "\<And>n i a. api n i a \<noteq> Rejected" and "snd (listAllWebhooks reg) = Inr ws"
  shows "pause_webhooks reg api d
     = (Json \<lparr> paused = length (filter (\<lambda>b. b) (answers api False 0 ws)),
               pause_skipped = length (filter (\<lambda>w. \<not> active w) ws),
               pause_failed = length (filter (\<lambda>b. \<not> b) (answers api False 0 ws)),
               pause_total = length ws \<rparr>,
        mirror_after d False (confirmed_ids api False 0 ws))"
  using toggle_loop_ok [of api False ws "toggle_init d", OF assms(1)] assms(2)
  by (auto simp: pause_webhooks_def toggle_init_def)

lemma resume_webhooks_all_active:
  assumes "\<forall>x \<in> set ws. active x" and "snd (listAllWebhooks reg) = Inr ws"
  shows "resume_webhooks reg api d
     = (Json \<lparr> resumed = 0, resume_skipped = length ws, resume_failed = 0,
               resume_total = length ws \<rparr>, d)"
proof -
  have "toggle_loop api True ws (toggle_init d)
      = Inr ((toggle_init d)\<lparr>skipped := skipped (toggle_init d) + length ws\<rparr>)"
    using toggle_loop_all_skipped [of ws True api "toggle_init d"] assms(1) by simp
  with assms(2) show ?thesis
    by (simp add: resume_webhooks_def toggle_init_def)
qed

lemma toggle_loop_rejected:
  assumes "toggle_loop api target pre st = Inr st1" and "active x \<noteq> target"
    and "api (length (patches st1)) (wh_id x) target = Rejected"
  shows "toggle_loop api target (pre @ x # post) st = Inl (NetworkError, st1)"
  using toggle_step_rejected [of x target api st1] assms(2) assms(3)
  by (simp add: toggle_loop_append [OF assms(1)])

lemma inactive_page_listing:
  "snd (listAllWebhooks inactive_page)
     = Inr [example_webhook ''w2'' False, example_webhook ''w3'' False]"
proof -
  have h: "\<forall>n l off. inactive_page n l off
       = Response True (Some [example_webhook ''w2'' False, example_webhook ''w3'' False])"
    by (simp add: inactive_page_def)
  show ?thesis
    by (simp add: listAllWebhooks_fixed_page [OF h] example_webhook_def)
qed

text \<open>
  C3. The resume operation, webhook by webhook. The loop reaches each enumerated
  webhook with the state left by those before it and runs the loop body on it. If the
  webhook is already active, the body adds one to \<open>skipped\<close> and changes nothing
  else: no update is requested and the mirror is untouched. If it is inactive and the
  update is answered with success, the body adds one to \<open>resumed\<close> (here
  \<open>changed\<close>) only, and the mirror row of that id, when there is one, gets
  \<open>active = 1\<close>; no other row changes. For the whole call, when every update is
  answered: \<open>resumed\<close> is the number of inactive webhooks whose update succeeded,
  \<open>skipped\<close> the number of active ones, updates are requested for the inactive
  ones only, and the mirror left behind is the old one with \<open>active = 1\<close> in the
  rows of the resumed ids.

  Twice in a row, against a registry that honours the updates it answered with
  success: the webhooks resumed by the first call are skipped by the second, the two
  \<open>resumed\<close> counts together do not exceed the number of webhooks that were
  inactive, and when every update of the first call succeeded the second call counts
  all as skipped, none as resumed, requests no update and answers with the summary
  whatever the update endpoint would do.
\<close>

theorem resume_skips_active_and_flips_inactive:
  "(active w \<longrightarrow> toggle_step api True w st = Inr (st\<lparr>skipped := skipped st + 1\<rparr>))
   \<and> (\<not> active v \<and> api (length (patches st)) (wh_id v) True = Response True ()
        \<longrightarrow> (\<exists>st'. toggle_step api True v st = Inr st'
              \<and> changed st' = changed st + 1
              \<and> skipped st' = skipped st
              \<and> failed st' = failed st
              \<and> patches st' = patches st @ [(wh_id v, True)]
              \<and> (\<forall>row. db st (wh_id v) = Some row
                    \<longrightarrow> db st' (wh_id v) = Some (row\<lparr>row_active := 1\<rparr>))
              \<and> (db st (wh_id v) = None \<longrightarrow> db st' = db st)
              \<and> (\<forall>i. i \<noteq> wh_id v \<longrightarrow> db st' i = db st i)))
   \<and> (toggle_loop api True pre st = Inr st1
        \<longrightarrow> toggle_loop api True (pre @ x # post) st
              = (case toggle_step api True x st1 of
                   Inl e \<Rightarrow> Inl e
                 | Inr st2 \<Rightarrow> toggle_loop api True post st2))
   \<and> ((\<forall>n i a. api n i a \<noteq> Rejected) \<and> snd (listAllWebhooks reg) = Inr ws
        \<longrightarrow> resume_webhooks reg api d
              = (Json \<lparr> resumed = length (filter (\<lambda>b. b) (answers api True 0 ws)),
                        resume_skipped = length (filter active ws),
                        resume_failed = length (filter (\<lambda>b. \<not> b) (answers api True 0 ws)),
                        resume_total = length ws \<rparr>,
                 mirror_after d True (confirmed_ids api True 0 ws))
            \<and> (\<exists>st'. toggle_loop api True ws (toggle_init d) = Inr st'
                  \<and> patches st' = map (\<lambda>w. (wh_id w, True)) (todo True ws)))
   \<and> ((\<forall>x \<in> set acts. active x)
        \<longrightarrow> toggle_loop api True acts st = Inr (st\<lparr>skipped := skipped st + length acts\<rparr>))
   \<and> ((\<forall>x \<in> set acts. active x) \<and> snd (listAllWebhooks reg_a) = Inr acts
        \<longrightarrow> resume_webhooks reg_a api d
              = (Json \<lparr> resumed = 0, resume_skipped = length acts, resume_failed = 0,
                        resume_total = length acts \<rparr>, d))
   \<and> ((\<forall>n i a. api n i a \<noteq> Rejected) \<and> (\<forall>n i a. api2 n i a \<noteq> Rejected)
        \<and> snd (listAllWebhooks reg) = Inr ws
        \<and> snd (listAllWebhooks reg2) = Inr (remote_after api True 0 ws)
        \<longrightarrow> (\<exists>s1 s2. fst (resume_webhooks reg api d) = Json s1
              \<and> fst (resume_webhooks reg2 api2 (snd (resume_webhooks reg api d))) = Json s2
              \<and> resumed s1 + resumed s2 \<le> length (todo True ws)
              \<and> resume_skipped s2 = resume_skipped s1 + resumed s1
              \<and> resume_total s2 = resume_total s1))
   \<and> ((\<forall>n i. api n i True = Response True ())
        \<and> snd (listAllWebhooks reg) = Inr ws
        \<and> snd (listAllWebhooks reg2) = Inr (remote_after api True 0 ws)
        \<longrightarrow> resume_webhooks reg2 api2 d2
              = (Json \<lparr> resumed = 0, resume_skipped = length ws, resume_failed = 0,
                        resume_total = length ws \<rparr>, d2))"
proof (intro conjI impI)
  assume "active w"
  then show "toggle_step api True w st = Inr (st\<lparr>skipped := skipped st + 1\<rparr>)"
    by (simp add: toggle_step_skip)
next
  assume a: "\<not> active v \<and> api (length (patches st)) (wh_id v) True = Response True ()"
  let ?st' = "st\<lparr>changed := changed st + 1,
                  db := sql_update_active (db st) (wh_id v) 1,
                  patches := patches st @ [(wh_id v, True)]\<rparr>"
  from a have step: "toggle_step api True v st = Inr ?st'"
    using toggle_step_success [of v True api st "()"] by simp
  have "\<forall>row. db st (wh_id v) = Some row
          \<longrightarrow> db ?st' (wh_id v) = Some (row\<lparr>row_active := 1\<rparr>)"
    by (simp add: sql_update_active_def)
  moreover have "db st (wh_id v) = None \<longrightarrow> db ?st' = db st"
    by (simp add: sql_update_active_def)
  moreover have "\<forall>i. i \<noteq> wh_id v \<longrightarrow> db ?st' i = db st i"
    by (simp add: sql_update_active_def split: option.splits)
  ultimately show "\<exists>st'. toggle_step api True v st = Inr st'
              \<and> changed st' = changed st + 1
              \<and> skipped st' = skipped st
              \<and> failed st' = failed st
              \<and> patches st' = patches st @ [(wh_id v, True)]
              \<and> (\<forall>row. db st (wh_id v) = Some row
                    \<longrightarrow> db st' (wh_id v) = Some (row\<lparr>row_active := 1\<rparr>))
              \<and> (db st (wh_id v) = None \<longrightarrow> db st' = db st)
              \<and> (\<forall>i. i \<noteq> wh_id v \<longrightarrow> db st' i = db st i)"
    using step by simp
next
  assume "toggle_loop api True pre st = Inr st1"
  then show "toggle_loop api True (pre @ x # post) st
              = (case toggle_step api True x st1 of
                   Inl e \<Rightarrow> Inl e
                 | Inr st2 \<Rightarrow> toggle_loop api True post st2)"
    by (simp add: toggle_loop_append)
next
  assume a: "(\<forall>n i a. api n i a \<noteq> Rejected) \<and> snd (listAllWebhooks reg) = Inr ws"
  then have ok: "\<And>n i a. api n i a \<noteq> Rejected" and l: "snd (listAllWebhooks reg) = Inr ws"
    by simp_all
  show "resume_webhooks reg api d
              = (Json \<lparr> resumed = length (filter (\<lambda>b. b) (answers api True 0 ws)),
                        resume_skipped = length (filter active ws),
                        resume_failed = length (filter (\<lambda>b. \<not> b) (answers api True 0 ws)),
                        resume_total = length ws \<rparr>,
                 mirror_after d True (confirmed_ids api True 0 ws))"
    by (rule resume_webhooks_answered [OF ok l])
  show "\<exists>st'. toggle_loop api True ws (toggle_init d) = Inr st'
                  \<and> patches st' = map (\<lambda>w. (wh_id w, True)) (todo True ws)"
    using toggle_loop_ok [of api True ws "toggle_init d", OF ok]
    by (auto simp: toggle_init_def)
next
  assume "\<forall>x \<in> set acts. active x"
  then show "toggle_loop api True acts st = Inr (st\<lparr>skipped := skipped st + length acts\<rparr>)"
    using toggle_loop_all_skipped [of acts True api st] by simp
next
  assume "(\<forall>x \<in> set acts. active x) \<and> snd (listAllWebhooks reg_a) = Inr acts"
  then show "resume_webhooks reg_a api d
              = (Json \<lparr> resumed = 0, resume_skipped = length acts, resume_failed = 0,
                        resume_total = length acts \<rparr>, d)"
    using resume_webhooks_all_active [of acts reg_a api d] by simp
next
  assume a: "(\<forall>n i a. api n i a \<noteq> Rejected) \<and> (\<forall>n i a. api2 n i a \<noteq> Rejected)
        \<and> snd (listAllWebhooks reg) = Inr ws
        \<and> snd (listAllWebhooks reg2) = Inr (remote_after api True 0 ws)"
  then have ok: "\<And>n i a. api n i a \<noteq> Rejected" and ok2: "\<And>n i a. api2 n i a \<noteq> Rejected"
    and l: "snd (listAllWebhooks reg) = Inr ws"
    and l2: "snd (listAllWebhooks reg2) = Inr (remote_after api True 0 ws)"
    by simp_all
  let ?ws2 = "remote_after api True 0 ws"
  note r1 = resume_webhooks_answered [of api reg ws d, OF ok l]
  note r2 = resume_webhooks_answered
    [of api2 reg2 "remote_after api True 0 ws" "snd (resume_webhooks reg api d)", OF ok2 l2]
  have act2: "length (filter active ?ws2)
      = length (filter active ws) + length (filter (\<lambda>b. b) (answers api True 0 ws))"
    using remote_after_settled [of True api 0 ws] by simp
  have "length (filter (\<lambda>b. b) (answers api2 True 0 ?ws2)) \<le> length (todo True ?ws2)"
    using answers_split [of api2 True 0 ?ws2] by simp
  moreover have "length (filter active ?ws2) + length (todo True ?ws2) = length ws"
    using todo_split [of True ?ws2] by (simp add: remote_after_length)
  moreover have "length (filter active ws) + length (todo True ws) = length ws"
    using todo_split [of True ws] by simp
  ultimately have le: "length (filter (\<lambda>b. b) (answers api True 0 ws))
      + length (filter (\<lambda>b. b) (answers api2 True 0 ?ws2)) \<le> length (todo True ws)"
    using act2 by simp
  show "\<exists>s1 s2. fst (resume_webhooks reg api d) = Json s1
              \<and> fst (resume_webhooks reg2 api2 (snd (resume_webhooks reg api d))) = Json s2
              \<and> resumed s1 + resumed s2 \<le> length (todo True ws)
              \<and> resume_skipped s2 = resume_skipped s1 + resumed s1
              \<and> resume_total s2 = resume_total s1"
    unfolding r2 unfolding r1 using le act2 by (simp add: remote_after_length)
next
  assume a: "(\<forall>n i. api n i True = Response True ())
        \<and> snd (listAllWebhooks reg) = Inr ws
        \<and> snd (listAllWebhooks reg2) = Inr (remote_after api True 0 ws)"
  then have "\<And>n i. succeeded (api n i True)"
    by (simp add: succeeded_def)
  then have "\<forall>x \<in> set (remote_after api True 0 ws). active x"
    using remote_after_all_settled [of api True 0 ws] by simp
  with a show "resume_webhooks reg2 api2 d2
              = (Json \<lparr> resumed = 0, resume_skipped = length ws, resume_failed = 0,
                        resume_total = length ws \<rparr>, d2)"
    using resume_webhooks_all_active [of "remote_after api True 0 ws" reg2 api2 d2]
    by (simp add: remote_after_length)
qed

theorem resume_skips_active_and_flips_inactive_witness:
  "active (example_webhook ''w1'' True)
   \<and> \<not> active (example_webhook ''w2'' False)
   \<and> always_patched (length (patches (toggle_init example_mirror)))
        (wh_id (example_webhook ''w2'' False)) True = Response True ()
   \<and> (\<forall>n i a. always_patched n i a \<noteq> Rejected)
   \<and> snd (listAllWebhooks same_page)
        = Inr [example_webhook ''w1'' True, example_webhook ''w2'' False]
   \<and> snd (listAllWebhooks resumed_page)
        = Inr (remote_after always_patched True 0
                 [example_webhook ''w1'' True, example_webhook ''w2'' False])
   \<and> toggle_step always_patched True (example_webhook ''w1'' True) (toggle_init example_mirror)
       = Inr ((toggle_init example_mirror)\<lparr>skipped := skipped (toggle_init example_mirror) + 1\<rparr>)
   \<and> (\<exists>st'. toggle_step always_patched True (example_webhook ''w2'' False)
               (toggle_init example_mirror) = Inr st'
          \<and> changed st' = changed (toggle_init example_mirror) + 1
          \<and> db st' ''w2'' = Some \<lparr> token_address = ''0xabc'', chain_id = 1, row_active = 1 \<rparr>)
   \<and> resume_webhooks same_page always_patched example_mirror
       = (Json \<lparr> resumed = 1, resume_skipped = 1, resume_failed = 0, resume_total = 2 \<rparr>,
          mirror_after example_mirror True [''w2''])
   \<and> mirror_after example_mirror True [''w2''] ''w2''
       = Some \<lparr> token_address = ''0xabc'', chain_id = 1, row_active = 1 \<rparr>
   \<and> resume_webhooks resumed_page reject_first (mirror_after example_mirror True [''w2''])
       = (Json \<lparr> resumed = 0, resume_skipped = 2, resume_failed = 0, resume_total = 2 \<rparr>,
          mirror_after example_mirror True [''w2''])
   \<and> resume_webhooks active_page reject_first example_mirror
       = (Json \<lparr> resumed = 0, resume_skipped = 1, resume_failed = 0, resume_total = 1 \<rparr>,
          example_mirror)
   \<and> toggle_loop always_patched True
         ([example_webhook ''w1'' True] @ example_webhook ''w2'' False # [])
         (toggle_init example_mirror)
       = (case toggle_step always_patched True (example_webhook ''w2'' False)
                 ((toggle_init example_mirror)
                    \<lparr>skipped := skipped (toggle_init example_mirror) + 1\<rparr>) of
            Inl e \<Rightarrow> Inl e
          | Inr st2 \<Rightarrow> toggle_loop always_patched True [] st2)
   \<and> (\<exists>s1 s2. fst (resume_webhooks same_page always_patched example_mirror) = Json s1
          \<and> fst (resume_webhooks resumed_page always_patched
                   (snd (resume_webhooks same_page always_patched example_mirror))) = Json s2
          \<and> resumed s1 + resumed s2 \<le> 1)"
proof -
  let ?w1 = "example_webhook ''w1'' True" and ?w2 = "example_webhook ''w2'' False"
  let ?d' = "mirror_after example_mirror True [''w2'']"
  have h1: "active ?w1"
    and h2: "\<not> active ?w2"
    and h3: "always_patched (length (patches (toggle_init example_mirror)))
        (wh_id ?w2) True = Response True ()"
    and h4: "\<forall>x \<in> set [?w1]. active x"
    and h5: "db (toggle_init example_mirror) (wh_id ?w2)
        = Some \<lparr> token_address = ''0xabc'', chain_id = 1, row_active = 0 \<rparr>"
    and h6: "\<forall>n i a. always_patched n i a \<noteq> Rejected"
    and h7: "\<forall>n i. always_patched n i True = Response True ()"
    by (simp_all add: example_webhook_def always_patched_def toggle_init_def example_mirror_def)
  note l1 = same_page_listing
  have ra: "remote_after always_patched True 0 [?w1, ?w2]
      = [example_webhook ''w1'' True, example_webhook ''w2'' True]"
    by (simp add: example_webhook_def always_patched_def succeeded_def)
  have l2: "snd (listAllWebhooks resumed_page) = Inr (remote_after always_patched True 0 [?w1, ?w2])"
    unfolding ra by (rule resumed_page_listing)
  note l3 = active_page_listing
  have pre: "toggle_loop always_patched True [?w1] (toggle_init example_mirror)
      = Inr ((toggle_init example_mirror)\<lparr>skipped := skipped (toggle_init example_mirror) + 1\<rparr>)"
    by (simp add: toggle_step_def example_webhook_def)
  have an: "answers always_patched True 0 [?w1, ?w2] = [True]"
    and ci: "confirmed_ids always_patched True 0 [?w1, ?w2] = [''w2'']"
    and fa: "length (filter active [?w1, ?w2]) = 1"
    by (simp_all add: answers_def confirmed_ids_def todo_def example_webhook_def
        always_patched_def succeeded_def)
  have m: "?d' ''w2'' = Some \<lparr> token_address = ''0xabc'', chain_id = 1, row_active = 1 \<rparr>"
    by (simp add: mirror_after_def example_mirror_def)
  note t1 = resume_skips_active_and_flips_inactive
    [where w = ?w1 and api = always_patched and st = "toggle_init example_mirror"
       and v = ?w2 and pre = "[?w1]" and x = ?w2 and post = "[]"
       and ?st1.0 = "(toggle_init example_mirror)\<lparr>skipped := skipped (toggle_init example_mirror) + 1\<rparr>"
       and reg = same_page and ws = "[?w1, ?w2]" and d = example_mirror
       and acts = "[?w1]" and reg_a = active_page and ?api2.0 = reject_first
       and ?reg2.0 = resumed_page and ?d2.0 = ?d']
  note t3 = resume_skips_active_and_flips_inactive
    [where api = always_patched and reg = same_page and ws = "[?w1, ?w2]"
       and d = example_mirror and ?api2.0 = always_patched and ?reg2.0 = resumed_page]
  note t2 = resume_skips_active_and_flips_inactive
    [where w = ?w1 and api = reject_first and st = "toggle_init example_mirror"
       and v = ?w2 and acts = "[?w1]" and reg_a = active_page and d = example_mirror]
  have c1: "toggle_step always_patched True ?w1 (toggle_init example_mirror)
       = Inr ((toggle_init example_mirror)\<lparr>skipped := skipped (toggle_init example_mirror) + 1\<rparr>)"
    using t1 h1 by blast
  have c2: "\<exists>st'. toggle_step always_patched True ?w2 (toggle_init example_mirror) = Inr st'
          \<and> changed st' = changed (toggle_init example_mirror) + 1
          \<and> db st' ''w2'' = Some \<lparr> token_address = ''0xabc'', chain_id = 1, row_active = 1 \<rparr>"
  proof -
    from t1 h2 h3 obtain st' where
      "toggle_step always_patched True ?w2 (toggle_init example_mirror) = Inr st'"
      "changed st' = changed (toggle_init example_mirror) + 1"
      "\<forall>row. db (toggle_init example_mirror) (wh_id ?w2) = Some row
          \<longrightarrow> db st' (wh_id ?w2) = Some (row\<lparr>row_active := 1\<rparr>)"
      by blast
    with h5 show ?thesis
      by (auto simp: example_webhook_def)
  qed
  have c3: "resume_webhooks same_page always_patched example_mirror
       = (Json \<lparr> resumed = 1, resume_skipped = 1, resume_failed = 0, resume_total = 2 \<rparr>, ?d')"
  proof -
    from t1 h6 l1 have "resume_webhooks same_page always_patched example_mirror
        = (Json \<lparr> resumed = length (filter (\<lambda>b. b) (answers always_patched True 0 [?w1, ?w2])),
                  resume_skipped = length (filter active [?w1, ?w2]),
                  resume_failed = length (filter (\<lambda>b. \<not> b) (answers always_patched True 0 [?w1, ?w2])),
                  resume_total = length [?w1, ?w2] \<rparr>,
           mirror_after example_mirror True (confirmed_ids always_patched True 0 [?w1, ?w2]))"
      by blast
    then show ?thesis
      unfolding an ci fa by simp
  qed
  have c4: "resume_webhooks resumed_page reject_first ?d'
       = (Json \<lparr> resumed = 0, resume_skipped = 2, resume_failed = 0, resume_total = 2 \<rparr>, ?d')"
  proof -
    from t1 h7 l1 l2 have "resume_webhooks resumed_page reject_first ?d'
        = (Json \<lparr> resumed = 0, resume_skipped = length [?w1, ?w2], resume_failed = 0,
                  resume_total = length [?w1, ?w2] \<rparr>, ?d')"
      by blast
    then show ?thesis by simp
  qed
  have c5: "resume_webhooks active_page reject_first example_mirror
       = (Json \<lparr> resumed = 0, resume_skipped = 1, resume_failed = 0, resume_total = 1 \<rparr>,
          example_mirror)"
  proof -
    from t2 h4 l3 have "resume_webhooks active_page reject_first example_mirror
        = (Json \<lparr> resumed = 0, resume_skipped = length [?w1], resume_failed = 0,
                  resume_total = length [?w1] \<rparr>, example_mirror)"
      by blast
    then show ?thesis by simp
  qed
  have c6: "toggle_loop always_patched True ([?w1] @ ?w2 # []) (toggle_init example_mirror)
       = (case toggle_step always_patched True ?w2
                 ((toggle_init example_mirror)
                    \<lparr>skipped := skipped (toggle_init example_mirror) + 1\<rparr>) of
            Inl e \<Rightarrow> Inl e
          | Inr st2 \<Rightarrow> toggle_loop always_patched True [] st2)"
    using t1 pre by blast
  have td: "length (todo True [?w1, ?w2]) = 1"
    by (simp add: todo_def example_webhook_def)
  have c7: "\<exists>s1 s2. fst (resume_webhooks same_page always_patched example_mirror) = Json s1
          \<and> fst (resume_webhooks resumed_page always_patched
                   (snd (resume_webhooks same_page always_patched example_mirror))) = Json s2
          \<and> resumed s1 + resumed s2 \<le> 1"
    using t3 h6 l1 l2 unfolding td by blast
  from h1 h2 h3 h6 l1 l2 c1 c2 c3 m c4 c5 c6 c7 show ?thesis by blast
qed

text \<open>
  C4, amended. An update answered with a status that is not 2xx only adds one to
  \<open>failed\<close> (and is recorded as requested): the mirror and the other counters keep
  their values, and the loop goes on with the next webhook. When every update request
  of a pause or resume batch is answered (2xx or not), the loop requests an update for
  every webhook that needs one, in order; each webhook is counted once as changed,
  skipped or failed; \<open>failed\<close> is the number of answers that are not 2xx; the
  mirror changes in the rows of the successfully updated ids only; and the handler
  returns the summary with \<open>total\<close> the number of webhooks. An update request
  that is rejected (a network failure: \<open>fetch\<close> throws), whichever request of the
  batch it is, ends the loop in the state reached; the webhooks after it are not
  processed and the handler answers with status 500.
\<close>

theorem non_2xx_update_is_isolated:
  "(active w \<noteq> target \<and> api (length (patches st)) (wh_id w) target = Response False ()
      \<longrightarrow> toggle_step api target w st
            = Inr (st\<lparr>failed := failed st + 1,
                       patches := patches st @ [(wh_id w, target)]\<rparr>))
   \<and> (toggle_loop api target pre st = Inr st1
        \<longrightarrow> toggle_loop api target (pre @ x # post) st
              = (case toggle_step api target x st1 of
                   Inl e \<Rightarrow> Inl e
                 | Inr st2 \<Rightarrow> toggle_loop api target post st2))
   \<and> ((\<forall>n i a. api n i a \<noteq> Rejected) \<and> snd (listAllWebhooks reg) = Inr ws
        \<longrightarrow> (\<exists>st'. toggle_loop api target ws (toggle_init d) = Inr st'
              \<and> patches st' = map (\<lambda>w. (wh_id w, target)) (todo target ws)
              \<and> failed st' = length (filter (\<lambda>b. \<not> b) (answers api target 0 ws))
              \<and> changed st' + skipped st' + failed st' = length ws
              \<and> db st' = mirror_after d target (confirmed_ids api target 0 ws))
          \<and> pause_webhooks reg api d
              = (Json \<lparr> paused = length (filter (\<lambda>b. b) (answers api False 0 ws)),
                        pause_skipped = length (filter (\<lambda>w. \<not> active w) ws),
                        pause_failed = length (filter (\<lambda>b. \<not> b) (answers api False 0 ws)),
                        pause_total = length ws \<rparr>,
                 mirror_after d False (confirmed_ids api False 0 ws))
          \<and> length (filter (\<lambda>b. b) (answers api False 0 ws))
              + length (filter (\<lambda>w. \<not> active w) ws)
              + length (filter (\<lambda>b. \<not> b) (answers api False 0 ws)) = length ws
          \<and> resume_webhooks reg api d
              = (Json \<lparr> resumed = length (filter (\<lambda>b. b) (answers api True 0 ws)),
                        resume_skipped = length (filter active ws),
                        resume_failed = length (filter (\<lambda>b. \<not> b) (answers api True 0 ws)),
                        resume_total = length ws \<rparr>,
                 mirror_after d True (confirmed_ids api True 0 ws))
          \<and> length (filter (\<lambda>b. b) (answers api True 0 ws))
              + length (filter active ws)
              + length (filter (\<lambda>b. \<not> b) (answers api True 0 ws)) = length ws)
   \<and> (toggle_loop api_r False pre_p (toggle_init d) = Inr st_p \<and> active x_p
        \<and> api_r (length (patches st_p)) (wh_id x_p) False = Rejected
        \<and> snd (listAllWebhooks reg_p) = Inr (pre_p @ x_p # post_p)
        \<longrightarrow> toggle_loop api_r False (pre_p @ x_p # post_p) (toggle_init d)
              = Inl (NetworkError, st_p)
            \<and> pause_webhooks reg_p api_r d = (Status500 NetworkError, db st_p))
   \<and> (toggle_loop api_r True pre_r (toggle_init d) = Inr st_r \<and> \<not> active x_r
        \<and> api_r (length (patches st_r)) (wh_id x_r) True = Rejected
        \<and> snd (listAllWebhooks reg_r) = Inr (pre_r @ x_r # post_r)
        \<longrightarrow> toggle_loop api_r True (pre_r @ x_r # post_r) (toggle_init d)
              = Inl (NetworkError, st_r)
            \<and> resume_webhooks reg_r api_r d = (Status500 NetworkError, db st_r))"
proof (intro conjI impI)
  assume "active w \<noteq> target \<and> api (length (patches st)) (wh_id w) target = Response False ()"
  then show "toggle_step api target w st
            = Inr (st\<lparr>failed := failed st + 1,
                       patches := patches st @ [(wh_id w, target)]\<rparr>)"
    using toggle_step_non_2xx [of w target api st "()"] by simp
next
  assume "toggle_loop api target pre st = Inr st1"
  then show "toggle_loop api target (pre @ x # post) st
              = (case toggle_step api target x st1 of
                   Inl e \<Rightarrow> Inl e
                 | Inr st2 \<Rightarrow> toggle_loop api target post st2)"
    by (simp add: toggle_loop_append)
next
  assume a: "(\<forall>n i a. api n i a \<noteq> Rejected) \<and> snd (listAllWebhooks reg) = Inr ws"
  then have ok: "\<And>n i a. api n i a \<noteq> Rejected" and l: "snd (listAllWebhooks reg) = Inr ws"
    by simp_all
  have total: "length (filter (\<lambda>b. b) (answers api t 0 ws))
      + length (filter (\<lambda>w. active w = t) ws)
      + length (filter (\<lambda>b. \<not> b) (answers api t 0 ws)) = length ws" for t
    using answers_split [of api t 0 ws] todo_split [of t ws] by simp
  show "\<exists>st'. toggle_loop api target ws (toggle_init d) = Inr st'
              \<and> patches st' = map (\<lambda>w. (wh_id w, target)) (todo target ws)
              \<and> failed st' = length (filter (\<lambda>b. \<not> b) (answers api target 0 ws))
              \<and> changed st' + skipped st' + failed st' = length ws
              \<and> db st' = mirror_after d target (confirmed_ids api target 0 ws)"
    using toggle_loop_ok [of api target ws "toggle_init d", OF ok] total [of target]
    by (auto simp: toggle_init_def)
  show "pause_webhooks reg api d
              = (Json \<lparr> paused = length (filter (\<lambda>b. b) (answers api False 0 ws)),
                        pause_skipped = length (filter (\<lambda>w. \<not> active w) ws),
                        pause_failed = length (filter (\<lambda>b. \<not> b) (answers api False 0 ws)),
                        pause_total = length ws \<rparr>,
                 mirror_after d False (confirmed_ids api False 0 ws))"
    by (rule pause_webhooks_answered [OF ok l])
  show "length (filter (\<lambda>b. b) (answers api False 0 ws))
              + length (filter (\<lambda>w. \<not> active w) ws)
              + length (filter (\<lambda>b. \<not> b) (answers api False 0 ws)) = length ws"
    using total [of False] by simp
  show "resume_webhooks reg api d
              = (Json \<lparr> resumed = length (filter (\<lambda>b. b) (answers api True 0 ws)),
                        resume_skipped = length (filter active ws),
                        resume_failed = length (filter (\<lambda>b. \<not> b) (answers api True 0 ws)),
                        resume_total = length ws \<rparr>,
                 mirror_after d True (confirmed_ids api True 0 ws))"
    by (rule resume_webhooks_answered [OF ok l])
  show "length (filter (\<lambda>b. b) (answers api True 0 ws))
              + length (filter active ws)
              + length (filter (\<lambda>b. \<not> b) (answers api True 0 ws)) = length ws"
    using total [of True] by simp
next
  assume a: "toggle_loop api_r False pre_p (toggle_init d) = Inr st_p \<and> active x_p
        \<and> api_r (length (patches st_p)) (wh_id x_p) False = Rejected
        \<and> snd (listAllWebhooks reg_p) = Inr (pre_p @ x_p # post_p)"
  then have r: "toggle_loop api_r False (pre_p @ x_p # post_p) (toggle_init d)
      = Inl (NetworkError, st_p)"
    using toggle_loop_rejected [of api_r False pre_p "toggle_init d" st_p x_p post_p] by simp
  then show "toggle_loop api_r False (pre_p @ x_p # post_p) (toggle_init d)
      = Inl (NetworkError, st_p)" .
  from a r show "pause_webhooks reg_p api_r d = (Status500 NetworkError, db st_p)"
    by (simp add: pause_webhooks_def)
next
  assume a: "toggle_loop api_r True pre_r (toggle_init d) = Inr st_r \<and> \<not> active x_r
        \<and> api_r (length (patches st_r)) (wh_id x_r) True = Rejected
        \<and> snd (listAllWebhooks reg_r) = Inr (pre_r @ x_r # post_r)"
  then have r: "toggle_loop api_r True (pre_r @ x_r # post_r) (toggle_init d)
      = Inl (NetworkError, st_r)"
    using toggle_loop_rejected [of api_r True pre_r "toggle_init d" st_r x_r post_r] by simp
  then show "toggle_loop api_r True (pre_r @ x_r # post_r) (toggle_init d)
      = Inl (NetworkError, st_r)" .
  from a r show "resume_webhooks reg_r api_r d = (Status500 NetworkError, db st_r)"
    by (simp add: resume_webhooks_def)
qed

theorem non_2xx_update_is_isolated_witness:
  "(\<forall>n i a. fail_first n i a \<noteq> Rejected)
   \<and> snd (listAllWebhooks inactive_page)
       = Inr [example_webhook ''w2'' False, example_webhook ''w3'' False]
   \<and> fail_first 0 ''w2'' True = Response False ()
   \<and> reject_second 1 ''w3'' True = Rejected
   \<and> reject_first 0 ''w1'' False = Rejected
   \<and> toggle_step fail_first True (example_webhook ''w2'' False) (toggle_init example_mirror)
       = Inr ((toggle_init example_mirror)
                \<lparr>failed := failed (toggle_init example_mirror) + 1,
                 patches := patches (toggle_init example_mirror) @ [(''w2'', True)]\<rparr>)
   \<and> resume_webhooks inactive_page fail_first example_mirror
       = (Json \<lparr> resumed = 1, resume_skipped = 0, resume_failed = 1, resume_total = 2 \<rparr>,
          mirror_after example_mirror True [''w3''])
   \<and> pause_webhooks inactive_page fail_first example_mirror
       = (Json \<lparr> paused = 0, pause_skipped = 2, pause_failed = 0, pause_total = 2 \<rparr>,
          mirror_after example_mirror False [])
   \<and> resume_webhooks inactive_page reject_second example_mirror
       = (Status500 NetworkError, sql_update_active example_mirror ''w2'' 1)
   \<and> pause_webhooks same_page reject_first example_mirror
       = (Status500 NetworkError, example_mirror)"
proof -
  let ?w1 = "example_webhook ''w1'' True" and ?w2 = "example_webhook ''w2'' False"
    and ?w3 = "example_webhook ''w3'' False"
  let ?init = "toggle_init example_mirror"
  let ?st_r = "?init\<lparr>changed := changed ?init + 1,
                      db := sql_update_active (db ?init) (wh_id ?w2) (if True then 1 else 0),
                      patches := patches ?init @ [(wh_id ?w2, True)]\<rparr>"
  have h1: "\<forall>n i a. fail_first n i a \<noteq> Rejected"
    and h2: "fail_first 0 ''w2'' True = Response False ()"
    and h3: "reject_second 1 ''w3'' True = Rejected"
    and h4: "reject_first 0 ''w1'' False = Rejected"
    by (simp_all add: fail_first_def reject_second_def reject_first_def)
  note l1 = inactive_page_listing
  note l2 = same_page_listing
  have s1: "active ?w2 \<noteq> True
      \<and> fail_first (length (patches ?init)) (wh_id ?w2) True = Response False ()"
    by (simp add: example_webhook_def toggle_init_def fail_first_def)
  have pre_r: "toggle_loop reject_second True [?w2] ?init = Inr ?st_r"
    by (simp add: toggle_step_def updateWebhookStatus_def reject_second_def
        example_webhook_def toggle_init_def)
  have rej_r: "\<not> active ?w3 \<and> reject_second (length (patches ?st_r)) (wh_id ?w3) True = Rejected"
    by (simp add: example_webhook_def toggle_init_def reject_second_def)
  have l1': "snd (listAllWebhooks inactive_page) = Inr ([?w2] @ ?w3 # [])"
    using l1 by simp
  have pre_p: "toggle_loop reject_first False [] ?init = Inr ?init"
    by simp
  have rej_p: "active ?w1 \<and> reject_first (length (patches ?init)) (wh_id ?w1) False = Rejected"
    by (simp add: example_webhook_def toggle_init_def reject_first_def)
  have l2': "snd (listAllWebhooks same_page) = Inr ([] @ ?w1 # [?w2])"
    using l2 by simp
  have an: "answers fail_first True 0 [?w2, ?w3] = [False, True]"
    and ci: "confirmed_ids fail_first True 0 [?w2, ?w3] = [''w3'']"
    and an': "answers fail_first False 0 [?w2, ?w3] = []"
    and ci': "confirmed_ids fail_first False 0 [?w2, ?w3] = []"
    and fa: "filter active [?w2, ?w3] = []"
    and fn: "filter (\<lambda>w. \<not> active w) [?w2, ?w3] = [?w2, ?w3]"
    by (simp_all add: answers_def confirmed_ids_def todo_def example_webhook_def
        fail_first_def succeeded_def)
  note t1 = non_2xx_update_is_isolated
    [where w = ?w2 and target = True and api = fail_first and st = ?init
       and reg = inactive_page and ws = "[?w2, ?w3]" and d = example_mirror
       and api_r = reject_second and pre_r = "[?w2]" and st_r = ?st_r and x_r = ?w3
       and post_r = "[]" and reg_r = inactive_page]
  note t2 = non_2xx_update_is_isolated
    [where d = example_mirror and api_r = reject_first and pre_p = "[]" and st_p = ?init
       and x_p = ?w1 and post_p = "[?w2]" and reg_p = same_page]
  have c1: "toggle_step fail_first True ?w2 ?init
       = Inr (?init\<lparr>failed := failed ?init + 1,
                    patches := patches ?init @ [(wh_id ?w2, True)]\<rparr>)"
    using t1 s1 by blast
  have c2: "resume_webhooks inactive_page fail_first example_mirror
       = (Json \<lparr> resumed = length (filter (\<lambda>b. b) (answers fail_first True 0 [?w2, ?w3])),
                 resume_skipped = length (filter active [?w2, ?w3]),
                 resume_failed = length (filter (\<lambda>b. \<not> b) (answers fail_first True 0 [?w2, ?w3])),
                 resume_total = length [?w2, ?w3] \<rparr>,
          mirror_after example_mirror True (confirmed_ids fail_first True 0 [?w2, ?w3]))"
    using t1 h1 l1 by blast
  have c3: "pause_webhooks inactive_page fail_first example_mirror
       = (Json \<lparr> paused = length (filter (\<lambda>b. b) (answers fail_first False 0 [?w2, ?w3])),
                 pause_skipped = length (filter (\<lambda>w. \<not> active w) [?w2, ?w3]),
                 pause_failed = length (filter (\<lambda>b. \<not> b) (answers fail_first False 0 [?w2, ?w3])),
                 pause_total = length [?w2, ?w3] \<rparr>,
          mirror_after example_mirror False (confirmed_ids fail_first False 0 [?w2, ?w3]))"
    using t1 h1 l1 by blast
  have c4: "resume_webhooks inactive_page reject_second example_mirror
       = (Status500 NetworkError, db ?st_r)"
    using t1 pre_r rej_r l1' by blast
  have c5: "pause_webhooks same_page reject_first example_mirror
       = (Status500 NetworkError, db ?init)"
    using t2 pre_p rej_p l2' by blast
  have d1: "db ?st_r = sql_update_active example_mirror ''w2'' 1"
    and d2: "db ?init = example_mirror"
    and d3: "wh_id ?w2 = ''w2''"
    by (simp_all add: toggle_init_def example_webhook_def)
  from h1 l1 h2 h3 h4 c1 [unfolded d3] c2 [unfolded an ci fa] c3 [unfolded an' ci' fn]
    c4 [unfolded d1] c5 [unfolded d2]
  show ?thesis by simp
qed

text \<open>
  C4, as stated, fails: when the first update request is rejected, the exception
  leaves the loop, the handler's \<open>catch\<close> answers with status 500, and no summary
  is returned.
\<close>

theorem rejected_update_aborts_pause:
  "pause_webhooks same_page reject_first Map.empty = (Status500 NetworkError, Map.empty)"
  by (simp add: pause_webhooks_def same_page_listing toggle_step_def
      updateWebhookStatus_def reject_first_def toggle_init_def example_webhook_def)

end
